theory Spec2Isabelle
  imports Complex_Main "HOL-Library.Sublist"
begin

section \<open>JavaScript strings and errors\<close>

text \<open>
  Strings are \<^typ>\<open>string\<close>; the functions below are the JavaScript string
  methods the engine calls, on ASCII text (\<open>toLowerCase\<close> changes the letters A-Z only,
  \<open>trim\<close> strips the ASCII white space).  A thrown \<open>Error\<close> is a value carrying its
  message; a function that may throw returns \<open>exn + 'a\<close>.
\<close>

datatype exn = Error string

definition error_message :: "exn \<Rightarrow> string" where
  "error_message e = (case e of Error m \<Rightarrow> m)"

definition js_lower_char :: "char \<Rightarrow> char" where
  "js_lower_char c =
     (case map_of (zip ''ABCDEFGHIJKLMNOPQRSTUVWXYZ'' ''abcdefghijklmnopqrstuvwxyz'') c of
        Some d \<Rightarrow> d
      | None \<Rightarrow> c)"

definition toLowerCase :: "string \<Rightarrow> string" where
  "toLowerCase s = map js_lower_char s"

definition is_space :: "char \<Rightarrow> bool" where
  "is_space c = (c \<in> set [CHR '' '', CHR 0x09, CHR 0x0A, CHR 0x0B, CHR 0x0C, CHR 0x0D])"

definition trim :: "string \<Rightarrow> string" where
  "trim s = rev (dropWhile is_space (rev (dropWhile is_space s)))"

definition startsWith :: "string \<Rightarrow> string \<Rightarrow> bool" where
  "startsWith s p = (take (length p) s = p)"

definition substring_from :: "nat \<Rightarrow> string \<Rightarrow> string" where
  "substring_from n s = drop n s"

definition substring :: "nat \<Rightarrow> nat \<Rightarrow> string \<Rightarrow> string" where
  "substring a b s = take (b - a) (drop a s)"

text \<open>The robot emoji U+1F916 that opens every comment the engine writes itself.\<close>

definition BOT :: string where
  "BOT = [CHR 0xF0, CHR 0x9F, CHR 0xA4, CHR 0x96]"

fun show_nat :: "nat \<Rightarrow> string" where
  "show_nat n =
     (if n < 10 then [''0123456789'' ! n]
      else show_nat (n div 10) @ [''0123456789'' ! (n mod 10)])"

declare show_nat.simps [simp del]

definition show_int :: "int \<Rightarrow> string" where
  "show_int i = (if i < 0 then ''-'' @ show_nat (nat (- i)) else show_nat (nat i))"


section \<open>The agent wrapper: \<open>ClaudeService.runClaudeSDK\<close>\<close>

text \<open>
  \<open>types.ts\<close>, \<open>ClaudeResult\<close>.  The fields \<open>output\<close> and \<open>error\<close> are \<open>r_output\<close> and \<open>r_error\<close>;
  \<open>error\<close> is absent on success.
\<close>

record ClaudeResult =
  success :: bool
  r_output :: string
  sessionId :: "string option"
  costUsd :: "real option"
  r_error :: "string option"

datatype permission_mode = PermPlan | PermAcceptEdits | PermDontAsk







definition nullish :: "'a option \<Rightarrow> 'a option \<Rightarrow> 'a option" where
  "nullish a b = (case a of Some x \<Rightarrow> Some x | None \<Rightarrow> b)"








section \<open>Programs that change a state and may throw\<close>

text \<open>
  A method is a function from the state of its object to a result and the new state; the
  result is \<open>Inl e\<close> when the method throws \<open>e\<close>.  \<open>try_catch\<close> and \<open>try_finally\<close>
  are the two \<open>try\<close> statements of the source; every \<open>finally\<close> block of the source
  is a state update that cannot throw.
\<close>

type_synonym ('s, 'a) prog = "'s \<Rightarrow> (exn + 'a) \<times> 's"

definition ret :: "'a \<Rightarrow> ('s, 'a) prog" where
  "ret x = (\<lambda>s. (Inr x, s))"

definition throw :: "exn \<Rightarrow> ('s, 'a) prog" where
  "throw e = (\<lambda>s. (Inl e, s))"

definition bind :: "('s, 'a) prog \<Rightarrow> ('a \<Rightarrow> ('s, 'b) prog) \<Rightarrow> ('s, 'b) prog" where
  "bind m f = (\<lambda>s. case m s of (Inl e, s') \<Rightarrow> (Inl e, s') | (Inr x, s') \<Rightarrow> f x s')"

definition try_catch :: "('s, 'a) prog \<Rightarrow> (exn \<Rightarrow> ('s, 'a) prog) \<Rightarrow> ('s, 'a) prog" where
  "try_catch m h = (\<lambda>s. case m s of (Inl e, s') \<Rightarrow> h e s' | (Inr x, s') \<Rightarrow> (Inr x, s'))"

definition try_finally :: "('s, 'a) prog \<Rightarrow> ('s \<Rightarrow> 's) \<Rightarrow> ('s, 'a) prog" where
  "try_finally m fin = (\<lambda>s. case m s of (r, s') \<Rightarrow> (r, fin s'))"

definition modify :: "('s \<Rightarrow> 's) \<Rightarrow> ('s, unit) prog" where
  "modify f = (\<lambda>s. (Inr (), f s))"

definition gets :: "('s \<Rightarrow> 'a) \<Rightarrow> ('s, 'a) prog" where
  "gets f = (\<lambda>s. (Inr (f s), s))"


section \<open>The workspace manager: \<open>ClaudeService\<close> (git operations)\<close>

text \<open>
  The service runs git through \<open>execSync\<close> and touches the file system through
  \<open>existsSync\<close> and \<open>mkdirSync\<close>.  What these do is outside the program: an
  \<open>os_world\<close> says, from the actions run so far, whether the next one succeeds (and with
  what output) or throws.  The service records every action it runs in \<open>history\<close>.
  \<open>activeWorktrees\<close> is the JavaScript \<open>Map\<close> from issue key to worktree path, kept as
  an association list in insertion order with one entry per key.
\<close>

datatype os_action = Exec string string | Mkdir string

record os_world =
  os_run :: "os_action list \<Rightarrow> os_action \<Rightarrow> exn + string"
  os_exists :: "os_action list \<Rightarrow> string \<Rightarrow> bool"

record ClaudeService =
  repoPath :: string
  worktreeBase :: string
  defaultBranch :: string
  maxConcurrentTasks :: int
  activeWorktrees :: "(string \<times> string) list"
  stagingLock :: bool
  history :: "os_action list"

record BranchInfo =
  branchName :: string
  worktreePath :: string

fun map_set :: "'k \<Rightarrow> 'v \<Rightarrow> ('k \<times> 'v) list \<Rightarrow> ('k \<times> 'v) list" where
  "map_set k v [] = [(k, v)]"
| "map_set k v ((k', v') # xs) = (if k = k' then (k, v) # xs else (k', v') # map_set k v xs)"

definition map_delete :: "'k \<Rightarrow> ('k \<times> 'v) list \<Rightarrow> ('k \<times> 'v) list" where
  "map_delete k xs = filter (\<lambda>kv. fst kv \<noteq> k) xs"

definition canAcceptTask :: "ClaudeService \<Rightarrow> bool" where
  "canAcceptTask s = (int (length (activeWorktrees s)) < maxConcurrentTasks s)"

definition run_action :: "os_world \<Rightarrow> os_action \<Rightarrow> (ClaudeService, string) prog" where
  "run_action os a = (\<lambda>s. (os_run os (history s) a, s\<lparr>history := history s @ [a]\<rparr>))"

definition gitAt :: "os_world \<Rightarrow> string \<Rightarrow> string \<Rightarrow> (ClaudeService, string) prog" where
  "gitAt os dir args = bind (run_action os (Exec dir (''git '' @ args))) (\<lambda>out. ret (trim out))"

definition git :: "os_world \<Rightarrow> string \<Rightarrow> (ClaudeService, string) prog" where
  "git os args = (\<lambda>s. gitAt os (repoPath s) args s)"

definition is_slug_char :: "char \<Rightarrow> bool" where
  "is_slug_char c = (c \<in> set ''abcdefghijklmnopqrstuvwxyz0123456789'')"

text \<open>\<open>replace(/[^a-z0-9]+/g, '-')\<close>; the flag says that the run of other characters
  being read has already given its dash.\<close>

fun collapse_runs :: "bool \<Rightarrow> string \<Rightarrow> string" where
  "collapse_runs in_run [] = []"
| "collapse_runs in_run (c # cs) =
     (if is_slug_char c then c # collapse_runs False cs
      else if in_run then collapse_runs True cs
      else CHR ''-'' # collapse_runs True cs)"

text \<open>\<open>replace(/^-|-$/g, '')\<close>\<close>

definition strip_dashes :: "string \<Rightarrow> string" where
  "strip_dashes s =
     (let s1 = (case s of [] \<Rightarrow> [] | c # t \<Rightarrow> (if c = CHR ''-'' then t else s))
      in if s1 \<noteq> [] \<and> last s1 = CHR ''-'' then butlast s1 else s1)"

definition slug_of :: "string \<Rightarrow> string" where
  "slug_of summary = substring 0 40 (strip_dashes (collapse_runs False (toLowerCase summary)))"

definition slashes_to_dashes :: "string \<Rightarrow> string" where
  "slashes_to_dashes s = map (\<lambda>c. if c = CHR ''/'' then CHR ''-'' else c) s"

definition path_join :: "string \<Rightarrow> string \<Rightarrow> string" where
  "path_join a b = a @ ''/'' @ b"

definition ensure_worktree_base :: "os_world \<Rightarrow> (ClaudeService, unit) prog" where
  "ensure_worktree_base os =
     (\<lambda>s. if os_exists os (history s) (worktreeBase s) then ret () s
          else bind (run_action os (Mkdir (worktreeBase s))) (\<lambda>_. ret ()) s)"

definition ignore_errors :: "('s, 'a) prog \<Rightarrow> ('s, unit) prog" where
  "ignore_errors m = try_catch (bind m (\<lambda>_. ret ())) (\<lambda>_. ret ())"

definition createBranch :: "os_world \<Rightarrow> string \<Rightarrow> string \<Rightarrow> (ClaudeService, BranchInfo) prog" where
  "createBranch os issueKey summary =
     (\<lambda>s.
       let bname = ''claude/'' @ issueKey @ ''-'' @ slug_of summary;
           wpath = path_join (worktreeBase s) (slashes_to_dashes bname)
       in bind (ensure_worktree_base os) (\<lambda>_.
          bind (ignore_errors (git os (''worktree remove \"'' @ wpath @ ''\" --force''))) (\<lambda>_.
          bind (git os (''fetch origin '' @ defaultBranch s)) (\<lambda>_.
          bind (ignore_errors (git os (''branch -D '' @ bname))) (\<lambda>_.
          bind (git os (''worktree add \"'' @ wpath @ ''\" -b '' @ bname @ '' origin/'' @ defaultBranch s)) (\<lambda>_.
          bind (modify (\<lambda>t. t\<lparr>activeWorktrees := map_set issueKey wpath (activeWorktrees t)\<rparr>)) (\<lambda>_.
          ret \<lparr>branchName = bname, worktreePath = wpath\<rparr>)))))) s)"

definition prepareReworkWorktree :: "os_world \<Rightarrow> string \<Rightarrow> string \<Rightarrow> (ClaudeService, string) prog" where
  "prepareReworkWorktree os issueKey bname =
     (\<lambda>s.
       let wpath = path_join (worktreeBase s) (slashes_to_dashes bname)
       in bind (ensure_worktree_base os) (\<lambda>_.
          bind (ignore_errors (git os (''worktree remove \"'' @ wpath @ ''\" --force''))) (\<lambda>_.
          bind (git os (''fetch origin '' @ bname)) (\<lambda>_.
          bind (ignore_errors (git os (''branch -D '' @ bname))) (\<lambda>_.
          bind (git os (''worktree add \"'' @ wpath @ ''\" -b '' @ bname @ '' origin/'' @ bname)) (\<lambda>_.
          bind (modify (\<lambda>t. t\<lparr>activeWorktrees := map_set issueKey wpath (activeWorktrees t)\<rparr>)) (\<lambda>_.
          ret wpath)))))) s)"

definition cleanupWorktree :: "os_world \<Rightarrow> string \<Rightarrow> (ClaudeService, unit) prog" where
  "cleanupWorktree os issueKey =
     (\<lambda>s. case map_of (activeWorktrees s) issueKey of
            None \<Rightarrow> ret () s
          | Some wpath \<Rightarrow>
              (if wpath = [] then ret () s
               else bind (ignore_errors (git os (''worktree remove \"'' @ wpath @ ''\" --force''))) (\<lambda>_.
                    modify (\<lambda>t. t\<lparr>activeWorktrees := map_delete issueKey (activeWorktrees t)\<rparr>)) s))"

subsection \<open>\<open>mergeIntoStaging\<close>\<close>

definition conflict_message :: "string \<Rightarrow> string" where
  "conflict_message bname =
     ''Merge conflict when merging '' @ bname @ '' into staging. '' @
     ''Please resolve manually or simplify the changes.''"

text \<open>The first inner \<open>try\<close> block, and its \<open>catch\<close> block, which makes a new staging
  branch from the default branch.\<close>

definition update_staging :: "os_world \<Rightarrow> (ClaudeService, string) prog" where
  "update_staging os =
     bind (git os ''fetch origin staging'') (\<lambda>_.
     bind (git os ''checkout staging'') (\<lambda>_.
     git os ''pull origin staging''))"

definition create_staging :: "os_world \<Rightarrow> (ClaudeService, string) prog" where
  "create_staging os =
     (\<lambda>s. bind (git os (''checkout '' @ defaultBranch s)) (\<lambda>_.
          bind (git os (''pull origin '' @ defaultBranch s)) (\<lambda>_.
          git os ''checkout -b staging'')) s)"

definition checkout_staging :: "os_world \<Rightarrow> (ClaudeService, string) prog" where
  "checkout_staging os = try_catch (update_staging os) (\<lambda>_. create_staging os)"

text \<open>The \<open>catch\<close> block of the merge: abort, go back to the default branch, throw.\<close>

definition abort_merge :: "os_world \<Rightarrow> string \<Rightarrow> (ClaudeService, string) prog" where
  "abort_merge os bname =
     (\<lambda>s. bind (git os ''merge --abort'') (\<lambda>_.
          bind (git os (''checkout '' @ defaultBranch s)) (\<lambda>_.
          throw (Error (conflict_message bname)))) s)"

definition merge_or_abort :: "os_world \<Rightarrow> string \<Rightarrow> (ClaudeService, string) prog" where
  "merge_or_abort os bname =
     try_catch
       (git os (''merge origin/'' @ bname @ '' --no-edit''))
       (\<lambda>_. abort_merge os bname)"

text \<open>The \<open>try\<close> ... \<open>finally\<close> statement of \<open>mergeIntoStaging\<close>, entered with the lock taken.\<close>

definition merge_locked :: "os_world \<Rightarrow> string \<Rightarrow> (ClaudeService, bool) prog" where
  "merge_locked os bname =
     try_finally
       (bind (git os (''fetch origin '' @ bname)) (\<lambda>_.
        bind (checkout_staging os) (\<lambda>_.
        bind (merge_or_abort os bname) (\<lambda>_.
        bind (git os ''push -u origin staging'') (\<lambda>_.
        bind (\<lambda>s. git os (''checkout '' @ defaultBranch s) s) (\<lambda>_.
        ret True))))))
       (\<lambda>s. s\<lparr>stagingLock := False\<rparr>)"

text \<open>
  \<open>mergeIntoStaging\<close> is an \<open>async\<close> function whose only \<open>await\<close> is the sleep of the
  spin loop: one turn of it either finds the lock taken and suspends (to test the lock
  again when it is resumed), or takes the lock and runs the whole merge, which is
  synchronous, to its end.
\<close>

datatype 'a turn = Suspended | Completed 'a

definition mergeIntoStaging ::
  "os_world \<Rightarrow> string \<Rightarrow> ClaudeService \<Rightarrow> (exn + bool) turn \<times> ClaudeService" where
  "mergeIntoStaging os bname s =
     (if stagingLock s then (Suspended, s)
      else case merge_locked os bname (s\<lparr>stagingLock := True\<rparr>) of
             (r, s') \<Rightarrow> (Completed r, s'))"

text \<open>
  Several calls of \<open>mergeIntoStaging\<close> in one process: each call is waiting (not yet
  started, or asleep in the spin loop) or has returned.  The event loop resumes one
  waiting call at a time, in any order: \<open>schedule\<close> lists the calls resumed.
\<close>

datatype merge_call = Waiting string | Returned "exn + bool"

record node =
  service :: ClaudeService
  calls :: "merge_call list"

definition resume_call :: "os_world \<Rightarrow> nat \<Rightarrow> node \<Rightarrow> node" where
  "resume_call os i n =
     (if i < length (calls n) then
        (case calls n ! i of
           Returned r \<Rightarrow> n
         | Waiting bname \<Rightarrow>
             (case mergeIntoStaging os bname (service n) of
                (Suspended, s') \<Rightarrow> n\<lparr>service := s'\<rparr>
              | (Completed r, s') \<Rightarrow> n\<lparr>service := s', calls := (calls n)[i := Returned r]\<rparr>))
      else n)"

definition run_schedule :: "os_world \<Rightarrow> nat list \<Rightarrow> node \<Rightarrow> node" where
  "run_schedule os schedule n = foldl (\<lambda>m i. resume_call os i m) n schedule"


section \<open>The task store: \<open>StateManager\<close>\<close>

text \<open>
  One row per issue key, with the columns of \<open>TaskRow\<close> (\<open>types.ts\<close>).  Times are
  milliseconds since the epoch, as \<open>new Date(...).getTime()\<close> gives them; the table is
  a list of rows in insertion order.  \<open>cost_usd\<close> is a JavaScript number, modelled by a
  real.
\<close>

datatype TaskPhase = Planning | PlanPosted | Approved | Implementing | Test | Merging | Failed

record TaskRow =
  issue_key :: string
  phase :: TaskPhase
  summary :: string
  description :: string
  plan :: "string option"
  branch_name :: "string option"
  pr_number :: "nat option"
  pr_url :: "string option"
  worktree_path :: "string option"
  reviewer_notes :: "string option"
  session_id :: "string option"
  cost_usd :: "real option"
  plan_posted_at :: "nat option"
  creator_account_id :: "string option"
  last_feedback_check :: "nat option"
  created_at :: nat
  updated_at :: nat

text \<open>
  The second argument of \<open>upsertTask\<close>, a partial row: \<open>None\<close> is a key that is not
  supplied; for a nullable column \<open>Some None\<close> writes \<open>null\<close>.
\<close>

record TaskPatch =
  p_phase :: "TaskPhase option"
  p_summary :: "string option"
  p_description :: "string option"
  p_plan :: "string option option"
  p_branch_name :: "string option option"
  p_pr_number :: "nat option option"
  p_pr_url :: "string option option"
  p_worktree_path :: "string option option"
  p_reviewer_notes :: "string option option"
  p_session_id :: "string option option"
  p_cost_usd :: "real option option"
  p_plan_posted_at :: "nat option option"
  p_creator_account_id :: "string option option"
  p_last_feedback_check :: "nat option option"

definition no_patch :: TaskPatch where
  "no_patch = \<lparr>p_phase = None, p_summary = None, p_description = None, p_plan = None,
     p_branch_name = None, p_pr_number = None, p_pr_url = None, p_worktree_path = None,
     p_reviewer_notes = None, p_session_id = None, p_cost_usd = None, p_plan_posted_at = None,
     p_creator_account_id = None, p_last_feedback_check = None\<rparr>"

definition supplied :: "'a option \<Rightarrow> 'a \<Rightarrow> 'a" where
  "supplied p old = (case p of Some v \<Rightarrow> v | None \<Rightarrow> old)"

text \<open>\<open>UPDATE tasks SET ... , updated_at = datetime('now') WHERE issue_key = ?\<close>\<close>

definition update_row :: "nat \<Rightarrow> TaskPatch \<Rightarrow> TaskRow \<Rightarrow> TaskRow" where
  "update_row now p r =
     r\<lparr>phase := supplied (p_phase p) (phase r),
       summary := supplied (p_summary p) (summary r),
       description := supplied (p_description p) (description r),
       plan := supplied (p_plan p) (plan r),
       branch_name := supplied (p_branch_name p) (branch_name r),
       pr_number := supplied (p_pr_number p) (pr_number r),
       pr_url := supplied (p_pr_url p) (pr_url r),
       worktree_path := supplied (p_worktree_path p) (worktree_path r),
       reviewer_notes := supplied (p_reviewer_notes p) (reviewer_notes r),
       session_id := supplied (p_session_id p) (session_id r),
       cost_usd := supplied (p_cost_usd p) (cost_usd r),
       plan_posted_at := supplied (p_plan_posted_at p) (plan_posted_at r),
       creator_account_id := supplied (p_creator_account_id p) (creator_account_id r),
       last_feedback_check := supplied (p_last_feedback_check p) (last_feedback_check r),
       updated_at := now\<rparr>"

text \<open>\<open>INSERT INTO tasks (...)\<close>: the columns not supplied take their defaults.\<close>

definition new_row :: "nat \<Rightarrow> string \<Rightarrow> TaskPhase \<Rightarrow> TaskPatch \<Rightarrow> TaskRow" where
  "new_row now key ph p =
     \<lparr>issue_key = key, phase = ph,
      summary = supplied (p_summary p) [],
      description = supplied (p_description p) [],
      plan = supplied (p_plan p) None,
      branch_name = supplied (p_branch_name p) None,
      pr_number = supplied (p_pr_number p) None,
      pr_url = supplied (p_pr_url p) None,
      worktree_path = supplied (p_worktree_path p) None,
      reviewer_notes = supplied (p_reviewer_notes p) None,
      session_id = supplied (p_session_id p) None,
      cost_usd = supplied (p_cost_usd p) None,
      plan_posted_at = supplied (p_plan_posted_at p) None,
      creator_account_id = supplied (p_creator_account_id p) None,
      last_feedback_check = supplied (p_last_feedback_check p) None,
      created_at = now, updated_at = now\<rparr>"

definition get_row :: "string \<Rightarrow> TaskRow list \<Rightarrow> TaskRow option" where
  "get_row key rows = find (\<lambda>r. issue_key r = key) rows"

definition upsert_rows :: "nat \<Rightarrow> string \<Rightarrow> TaskPatch \<Rightarrow> TaskRow list \<Rightarrow> exn + TaskRow list" where
  "upsert_rows now key p rows =
     (case get_row key rows of
        Some existing \<Rightarrow> Inr (map (\<lambda>r. if issue_key r = key then update_row now p r else r) rows)
      | None \<Rightarrow>
          (case p_phase p of
             None \<Rightarrow> Inl (Error ''NOT NULL constraint failed: tasks.phase'')
           | Some ph \<Rightarrow> Inr (rows @ [new_row now key ph p])))"

definition rows_by_phase :: "TaskPhase \<Rightarrow> TaskRow list \<Rightarrow> TaskRow list" where
  "rows_by_phase ph rows = filter (\<lambda>r. phase r = ph) rows"

definition delete_row :: "string \<Rightarrow> TaskRow list \<Rightarrow> TaskRow list" where
  "delete_row key rows = filter (\<lambda>r. issue_key r \<noteq> key) rows"


section \<open>The orchestration engine: \<open>WorkflowEngine\<close>\<close>

subsection \<open>Collaborators\<close>

text \<open>
  The engine calls the issue tracker, the code host, the agent and the git workspace
  through their services.  A \<open>call\<close> names one such call with its arguments; the
  engine's state keeps the calls made so far in \<open>trace\<close>.  A \<open>world\<close> gives the outcome
  of the n-th call (n is the number of calls made before it): a value, or the error the
  call throws.  \<open>latency\<close> is the time the n-th call takes; \<open>clock\<close> is what
  \<open>new Date()\<close> and \<open>Date.now()\<close> read.
\<close>

datatype call =
    TransitionIssue string string
  | AddComment string string
  | AssignIssue string string
  | AddLabel string string
  | RemoveLabel string string
  | GetIssue string
  | CreatePlan string string string
  | ImplementPlan string string string string "string option"
  | Rework string string string string string string "string option"
  | FixBuildFailure string string string string int
  | CreateBranch string string
  | PushChanges string string string
  | PushRework string string string
  | PushBuildFix string string int
  | MergeIntoStaging string
  | SmokeTestStaging
  | Cleanup
  | CreatePullRequest string string string string
  | GetPullRequest nat
  | MergePullRequest nat string string
  | DeleteBranch string
  | FindWorkflowRun string string nat
  | GetWorkflowRunStatus nat
  | GetFailedJobLogs nat
  | Sleep nat

record push_result =
  pushed :: bool
  reason :: "string option"

record smoke_result =
  tested :: bool
  passed :: "bool option"
  smoke_output :: "string option"
  smoke_reason :: "string option"

record pull_request =
  pr_num :: nat
  html_url :: string

record pr_info =
  pr_state :: string
  head_ref :: string
  pr_title :: string

text \<open>A comment with its body already converted by \<open>descriptionToText\<close>, and the time
  \<open>new Date(comment.created).getTime()\<close>.\<close>

record jira_comment =
  c_text :: string
  c_created :: nat

record jira_issue =
  i_status :: "string option"
  i_assignee :: "string option"
  i_comments :: "jira_comment list option"

record world =
  w_void :: "nat \<Rightarrow> call \<Rightarrow> exn + unit"
  w_agent :: "nat \<Rightarrow> call \<Rightarrow> exn + ClaudeResult"
  w_branch :: "nat \<Rightarrow> call \<Rightarrow> exn + string"
  w_push :: "nat \<Rightarrow> call \<Rightarrow> exn + push_result"
  w_smoke :: "nat \<Rightarrow> smoke_result"
  w_pr_created :: "nat \<Rightarrow> call \<Rightarrow> exn + pull_request"
  w_pr :: "nat \<Rightarrow> call \<Rightarrow> exn + pr_info"
  w_run :: "nat \<Rightarrow> call \<Rightarrow> exn + nat option"
  w_status :: "nat \<Rightarrow> call \<Rightarrow> exn + string \<times> string option"
  w_logs :: "nat \<Rightarrow> call \<Rightarrow> exn + string"
  w_issue :: "nat \<Rightarrow> call \<Rightarrow> exn + jira_issue"
  latency :: "nat \<Rightarrow> nat"

record Config =
  claudeAccountId :: "string option"
  claudeLabel :: string
  yourAccountId :: "string option"
  actionsWorkflowFile :: "string option"
  actionsMaxRetries :: int
  jiraBaseUrl :: string
  defaultBranchName :: string

record engine =
  tasks :: "TaskRow list"
  processing :: "string set"
  clock :: nat
  trace :: "call list"

definition record_call :: "world \<Rightarrow> call \<Rightarrow> engine \<Rightarrow> engine" where
  "record_call w c s =
     s\<lparr>trace := trace s @ [c], clock := clock s + latency w (length (trace s))\<rparr>"

definition ext :: "world \<Rightarrow> (nat \<Rightarrow> call \<Rightarrow> exn + 'a) \<Rightarrow> call \<Rightarrow> (engine, 'a) prog" where
  "ext w outcome c = (\<lambda>s. (outcome (length (trace s)) c, record_call w c s))"

definition sleep :: "nat \<Rightarrow> (engine, unit) prog" where
  "sleep ms = (\<lambda>s. (Inr (), s\<lparr>trace := trace s @ [Sleep ms], clock := clock s + ms\<rparr>))"

text \<open>The store, as the engine uses it.\<close>

definition getTask :: "string \<Rightarrow> (engine, TaskRow option) prog" where
  "getTask key = gets (\<lambda>s. get_row key (tasks s))"

definition upsertTask :: "string \<Rightarrow> TaskPatch \<Rightarrow> (engine, unit) prog" where
  "upsertTask key p =
     (\<lambda>s. case upsert_rows (clock s) key p (tasks s) of
            Inl e \<Rightarrow> (Inl e, s)
          | Inr rows \<Rightarrow> (Inr (), s\<lparr>tasks := rows\<rparr>))"

definition getTasksByPhase :: "TaskPhase \<Rightarrow> (engine, TaskRow list) prog" where
  "getTasksByPhase ph = gets (\<lambda>s. rows_by_phase ph (tasks s))"

definition deleteTask :: "string \<Rightarrow> (engine, unit) prog" where
  "deleteTask key = modify (\<lambda>s. s\<lparr>tasks := delete_row key (tasks s)\<rparr>)"

text \<open>The services.\<close>

definition transitionIssue :: "world \<Rightarrow> string \<Rightarrow> string \<Rightarrow> (engine, unit) prog" where
  "transitionIssue w key status = ext w (w_void w) (TransitionIssue key status)"

definition addComment :: "world \<Rightarrow> string \<Rightarrow> string \<Rightarrow> (engine, unit) prog" where
  "addComment w key text = ext w (w_void w) (AddComment key text)"

definition assignIssue :: "world \<Rightarrow> string \<Rightarrow> string \<Rightarrow> (engine, unit) prog" where
  "assignIssue w key account = ext w (w_void w) (AssignIssue key account)"

definition addLabel :: "world \<Rightarrow> string \<Rightarrow> string \<Rightarrow> (engine, unit) prog" where
  "addLabel w key label = ext w (w_void w) (AddLabel key label)"

definition removeLabel :: "world \<Rightarrow> string \<Rightarrow> string \<Rightarrow> (engine, unit) prog" where
  "removeLabel w key label = ext w (w_void w) (RemoveLabel key label)"

definition getIssue :: "world \<Rightarrow> string \<Rightarrow> (engine, jira_issue) prog" where
  "getIssue w key = ext w (w_issue w) (GetIssue key)"

definition createPlan :: "world \<Rightarrow> string \<Rightarrow> string \<Rightarrow> string \<Rightarrow> (engine, ClaudeResult) prog" where
  "createPlan w key summ descr = ext w (w_agent w) (CreatePlan key summ descr)"

definition implementPlan ::
  "world \<Rightarrow> string \<Rightarrow> string \<Rightarrow> string \<Rightarrow> string \<Rightarrow> string option \<Rightarrow> (engine, ClaudeResult) prog" where
  "implementPlan w key summ descr pl notes = ext w (w_agent w) (ImplementPlan key summ descr pl notes)"

definition rework ::
  "world \<Rightarrow> string \<Rightarrow> string \<Rightarrow> string \<Rightarrow> string \<Rightarrow> string \<Rightarrow> string \<Rightarrow> string option
     \<Rightarrow> (engine, ClaudeResult) prog" where
  "rework w key summ descr pl feedback bname sid =
     ext w (w_agent w) (Rework key summ descr pl feedback bname sid)"

definition fixBuildFailure ::
  "world \<Rightarrow> string \<Rightarrow> string \<Rightarrow> string \<Rightarrow> string \<Rightarrow> int \<Rightarrow> (engine, ClaudeResult) prog" where
  "fixBuildFailure w key summ bname logs attempt =
     ext w (w_agent w) (FixBuildFailure key summ bname logs attempt)"

definition engine_createBranch :: "world \<Rightarrow> string \<Rightarrow> string \<Rightarrow> (engine, string) prog" where
  "engine_createBranch w key summ = ext w (w_branch w) (CreateBranch key summ)"

definition pushChanges :: "world \<Rightarrow> string \<Rightarrow> string \<Rightarrow> string \<Rightarrow> (engine, push_result) prog" where
  "pushChanges w key summ bname = ext w (w_push w) (PushChanges key summ bname)"

definition pushRework :: "world \<Rightarrow> string \<Rightarrow> string \<Rightarrow> string \<Rightarrow> (engine, push_result) prog" where
  "pushRework w key bname feedback = ext w (w_push w) (PushRework key bname feedback)"

definition pushBuildFix :: "world \<Rightarrow> string \<Rightarrow> string \<Rightarrow> int \<Rightarrow> (engine, push_result) prog" where
  "pushBuildFix w key bname attempt = ext w (w_push w) (PushBuildFix key bname attempt)"

definition engine_mergeIntoStaging :: "world \<Rightarrow> string \<Rightarrow> (engine, unit) prog" where
  "engine_mergeIntoStaging w bname = ext w (w_void w) (MergeIntoStaging bname)"

definition smokeTestStaging :: "world \<Rightarrow> (engine, smoke_result) prog" where
  "smokeTestStaging w = ext w (\<lambda>n c. Inr (w_smoke w n)) SmokeTestStaging"

definition cleanup :: "world \<Rightarrow> engine \<Rightarrow> engine" where
  "cleanup w s = record_call w Cleanup s"

definition createPullRequest ::
  "world \<Rightarrow> string \<Rightarrow> string \<Rightarrow> string \<Rightarrow> string \<Rightarrow> (engine, pull_request) prog" where
  "createPullRequest w hd_ref base title body = ext w (w_pr_created w) (CreatePullRequest hd_ref base title body)"

definition getPullRequest :: "world \<Rightarrow> nat \<Rightarrow> (engine, pr_info) prog" where
  "getPullRequest w n = ext w (w_pr w) (GetPullRequest n)"

definition mergePullRequest :: "world \<Rightarrow> nat \<Rightarrow> string \<Rightarrow> string \<Rightarrow> (engine, unit) prog" where
  "mergePullRequest w n title method = ext w (w_void w) (MergePullRequest n title method)"

definition deleteBranch :: "world \<Rightarrow> string \<Rightarrow> (engine, unit) prog" where
  "deleteBranch w bname = ext w (\<lambda>n c. Inr ()) (DeleteBranch bname)"

definition findWorkflowRun :: "world \<Rightarrow> string \<Rightarrow> string \<Rightarrow> nat \<Rightarrow> (engine, nat option) prog" where
  "findWorkflowRun w wfile bname after = ext w (w_run w) (FindWorkflowRun wfile bname after)"

definition getWorkflowRunStatus :: "world \<Rightarrow> nat \<Rightarrow> (engine, string \<times> string option) prog" where
  "getWorkflowRunStatus w runId = ext w (w_status w) (GetWorkflowRunStatus runId)"

definition getFailedJobLogs :: "world \<Rightarrow> nat \<Rightarrow> (engine, string) prog" where
  "getFailedJobLogs w runId = ext w (w_logs w) (GetFailedJobLogs runId)"


subsection \<open>Texts\<close>

text \<open>
  The characters outside ASCII that the engine's comments use, as their UTF-8 bytes, and
  the conversions a template literal makes.  The engine's log lines have no effect on
  the state and are left out.
\<close>

definition NL :: string where "NL = [CHR 0x0A]"
definition CROSS :: string where "CROSS = [CHR 0xE2, CHR 0x9D, CHR 0x8C]"
definition CHECK :: string where "CHECK = [CHR 0xE2, CHR 0x9C, CHR 0x85]"
definition WARN :: string where "WARN = [CHR 0xE2, CHR 0x9A, CHR 0xA0, CHR 0xEF, CHR 0xB8, CHR 0x8F]"
definition INFO :: string where "INFO = [CHR 0xE2, CHR 0x84, CHR 0xB9, CHR 0xEF, CHR 0xB8, CHR 0x8F]"
definition DASH :: string where "DASH = [CHR 0xE2, CHR 0x80, CHR 0x94]"
definition TICK :: string where "TICK = [CHR 0x60]"

definition show_null :: "string option \<Rightarrow> string" where
  "show_null x = (case x of Some t \<Rightarrow> t | None \<Rightarrow> ''null'')"

definition show_undefined :: "string option \<Rightarrow> string" where
  "show_undefined x = (case x of Some t \<Rightarrow> t | None \<Rightarrow> ''undefined'')"


definition or_zero :: "real option \<Rightarrow> real" where
  "or_zero x = (case x of Some c \<Rightarrow> c | None \<Rightarrow> 0)"

text \<open>\<open>if (id) await this.jira.assignIssue(issueKey, id)\<close>\<close>

definition assign_if :: "world \<Rightarrow> string \<Rightarrow> string option \<Rightarrow> (engine, unit) prog" where
  "assign_if w key account =
     (case account of
        Some a \<Rightarrow> (if a \<noteq> [] then assignIssue w key a else ret ())
      | None \<Rightarrow> ret ())"

definition getAssignBackId :: "Config \<Rightarrow> string \<Rightarrow> (engine, string option) prog" where
  "getAssignBackId cfg key =
     bind (getTask key) (\<lambda>taskState.
     ret (nullish (case taskState of Some r \<Rightarrow> creator_account_id r | None \<Rightarrow> None)
                  (yourAccountId cfg)))"

definition analyzing_comment :: string where
  "analyzing_comment = BOT @ '' Claude is analyzing this task and creating an implementation plan...''"

definition plan_comment :: "string \<Rightarrow> string" where
  "plan_comment pl =
     BOT @ '' **Implementation Plan:**'' @ NL @ NL @ pl @ NL @ NL @
     ''---'' @ NL @
     ''**To approve:** Comment '' @ TICK @ ''approve'' @ TICK @ '' (optionally add notes after it)'' @ NL @
     ''**To reject/modify:** Comment with your feedback and Claude will re-plan'' @ NL @
     ''**To ask Claude a question:** Just comment your question''"


definition adjusting_comment :: string where
  "adjusting_comment = BOT @ '' Got it '' @ DASH @ '' adjusting the plan based on your feedback...''"

definition updated_plan_comment :: "string \<Rightarrow> string" where
  "updated_plan_comment pl =
     BOT @ '' **Updated Plan:**'' @ NL @ NL @ pl @ NL @ NL @
     ''---'' @ NL @
     ''**To approve:** Comment '' @ TICK @ ''approve'' @ TICK @ NL @
     ''**More feedback?** Just comment.''"

definition replanning_failed_comment :: "string option \<Rightarrow> string" where
  "replanning_failed_comment err = BOT @ CROSS @ '' Re-planning failed: '' @ show_undefined err"

definition replan_description :: "TaskRow \<Rightarrow> string \<Rightarrow> string" where
  "replan_description r commentText =
     description r @ NL @ NL @ ''## Previous Plan:'' @ NL @ show_null (plan r) @ NL @ NL @
     ''## Reviewer Feedback:'' @ NL @ commentText"

definition starting_comment :: string where
  "starting_comment = BOT @ '' Plan approved '' @ DASH @ '' starting implementation...''"

definition test_note :: "smoke_result \<Rightarrow> string" where
  "test_note t =
     (if tested t then
        (if passed t = Some True then CHECK @ '' Staging smoke test passed''
         else WARN @ '' Staging concerns: '' @ show_undefined (smoke_output t))
      else INFO @ '' Staging test skipped: '' @ show_undefined (smoke_reason t))"

definition pr_body :: "Config \<Rightarrow> string \<Rightarrow> string \<Rightarrow> string option \<Rightarrow> ClaudeResult \<Rightarrow> string \<Rightarrow> string" where
  "pr_body cfg key summ pl result note =
     ''## '' @ key @ '': '' @ summ @ NL @ NL @
     ''### Approved Plan'' @ NL @ show_null pl @ NL @ NL @
     ''### Implementation Notes'' @ NL @
       (if substring 0 2000 (r_output result) \<noteq> [] then substring 0 2000 (r_output result)
        else ''See commits.'') @ NL @ NL @
     ''### Staging Test'' @ NL @ note @ NL @ NL @
     ''[Jira: '' @ key @ ''](''  @ jiraBaseUrl cfg @ ''/browse/'' @ key @ '')'' @ NL @ NL @
     ''---'' @ NL @ ''*Automated by jira-claude-automation*''"

definition implemented_comment :: "string \<Rightarrow> pull_request \<Rightarrow> string \<Rightarrow> string" where
  "implemented_comment bname pr note =
     BOT @ '' '' @ CHECK @ '' Implementation complete!'' @ NL @ NL @
     ''**Branch:** '' @ TICK @ bname @ TICK @ NL @
     ''**PR:** '' @ html_url pr @ NL @
     ''**PR #:** '' @ show_nat (pr_num pr) @ NL @ NL @
     note @ NL @ NL @
     ''Please review the PR and staging site.'' @ NL @
     ''When satisfied, move this task to **\"Done\"** to merge & deploy to production.''"

definition implementation_error_comment :: "string \<Rightarrow> string" where
  "implementation_error_comment msg =
     BOT @ CROSS @ '' Implementation error:'' @ NL @ NL @ msg @ NL @ NL @
     ''Please review and retry or handle manually.''"





definition autofix_comment :: "int \<Rightarrow> int \<Rightarrow> string" where
  "autofix_comment attempt maxRetries =
     BOT @ '' GitHub Actions workflow failed. Claude is attempting an auto-fix (attempt '' @
     show_int attempt @ ''/'' @ show_int maxRetries @ '')...''"

definition workflow_failed_message :: "int \<Rightarrow> string option \<Rightarrow> string" where
  "workflow_failed_message totalAttempts conclusion =
     ''GitHub Actions workflow failed after '' @ show_int totalAttempts @ '' attempt(s). '' @
     ''Last conclusion: '' @ show_null conclusion"



subsection \<open>Phase 1: plan\<close>

record new_issue =
  ni_key :: string
  ni_summary :: string
  ni_description :: string
  ni_reporter :: "string option"

definition add_processing :: "string \<Rightarrow> (engine, unit) prog" where
  "add_processing key = modify (\<lambda>s. s\<lparr>processing := insert key (processing s)\<rparr>)"

definition delete_processing :: "string \<Rightarrow> engine \<Rightarrow> engine" where
  "delete_processing key s = s\<lparr>processing := processing s - {key}\<rparr>"

definition is_plan_posted :: "TaskRow option \<Rightarrow> bool" where
  "is_plan_posted existing = (case existing of Some r \<Rightarrow> phase r = PlanPosted | None \<Rightarrow> False)"





subsection \<open>CI validation and auto-fix\<close>

record poll_result =
  poll_success :: bool
  conclusion :: "string option"

definition maxPollTime :: nat where
  "maxPollTime = 10 * 60 * 1000"

definition poll_delay :: "nat \<Rightarrow> nat" where
  "poll_delay idx = [15000, 30000, 60000] ! min idx 2"

lemma poll_delay_pos: "0 < poll_delay idx"
proof -
  have "min idx 2 = 0 \<or> min idx 2 = 1 \<or> min idx 2 = 2" by arith
  then show ?thesis by (auto simp add: poll_delay_def)
qed

lemma ext_clock: "clock s \<le> clock (snd (ext w outcome c s))"
  by (simp add: ext_def record_call_def)

text \<open>
  The \<open>while\<close> loop of \<open>pollWorkflowRun\<close>.  It ends because every turn sleeps for at
  least 15 seconds and the loop stops 10 minutes after \<open>start\<close>.
\<close>

function pollLoop :: "world \<Rightarrow> nat \<Rightarrow> nat \<Rightarrow> nat \<Rightarrow> (engine, poll_result) prog" where
  "pollLoop w runId start idx s =
     (if clock s - start < maxPollTime then
        (case getWorkflowRunStatus w runId s of
           (Inl e, s1) \<Rightarrow> (Inl e, s1)
         | (Inr st, s1) \<Rightarrow>
             (if fst st = ''completed''
              then (Inr \<lparr>poll_success = (snd st = Some ''success''), conclusion = snd st\<rparr>, s1)
              else pollLoop w runId start (idx + 1) (snd (sleep (poll_delay idx) s1))))
      else (Inr \<lparr>poll_success = False, conclusion = Some ''timed_out''\<rparr>, s))"
  by pat_completeness auto
termination
proof (relation "measure (\<lambda>(w, runId, start, idx, s). (start + maxPollTime) - clock s)", goal_cases)
  case 1
  show ?case by simp
next
  case (2 w runId start idx s x1 s1 st)
  from 2 have "s1 = snd (getWorkflowRunStatus w runId s)"
    by (metis snd_conv)
  then have "clock s \<le> clock s1"
    using ext_clock [of s w "w_status w" "GetWorkflowRunStatus runId"]
    by (simp add: getWorkflowRunStatus_def)
  moreover have "clock (snd (sleep (poll_delay idx) s1)) = clock s1 + poll_delay idx"
    by (simp add: sleep_def)
  ultimately show ?case
    using 2(1) poll_delay_pos [of idx] by (simp add: maxPollTime_def)
qed

declare pollLoop.simps [simp del]

definition pollWorkflowRun :: "world \<Rightarrow> string \<Rightarrow> nat \<Rightarrow> (engine, poll_result) prog" where
  "pollWorkflowRun w key runId = (\<lambda>s. pollLoop w runId (clock s) 0 s)"

text \<open>The inner \<open>for\<close> loop that waits for the run to appear: at most ten tries.\<close>

fun find_run :: "world \<Rightarrow> string \<Rightarrow> nat \<Rightarrow> nat \<Rightarrow> (engine, nat option) prog" where
  "find_run w wfile pushTime 0 = ret None"
| "find_run w wfile pushTime (Suc n) =
     bind (sleep 10000) (\<lambda>_.
     bind (findWorkflowRun w wfile ''staging'' pushTime) (\<lambda>run.
     case run of
       Some runId \<Rightarrow> ret (Some runId)
     | None \<Rightarrow> find_run w wfile pushTime n))"

text \<open>
  One turn of the \<open>for (attempt ...)\<close> loop of \<open>waitForStagingWorkflow\<close>: \<open>Return\<close>
  when the method returns from inside the loop, \<open>Continue\<close> when the turn reaches its end.
\<close>

datatype loop_step = Continue | Return

definition attempt_body ::
  "world \<Rightarrow> string \<Rightarrow> string \<Rightarrow> string \<Rightarrow> string \<Rightarrow> int \<Rightarrow> int \<Rightarrow> (engine, loop_step) prog" where
  "attempt_body w key bname summ wfile maxRetries attempt =
     bind (gets clock) (\<lambda>pushTime.
     bind (find_run w wfile pushTime 10) (\<lambda>found.
     case found of
       None \<Rightarrow> ret Return
     | Some runId \<Rightarrow>
         if runId = 0 then ret Return
         else
           bind (pollWorkflowRun w key runId) (\<lambda>result.
           if poll_success result then ret Return
           else if attempt \<ge> maxRetries + 1
           then throw (Error (workflow_failed_message (maxRetries + 1) (conclusion result)))
           else
             bind (getFailedJobLogs w runId) (\<lambda>logs.
             bind (addComment w key (autofix_comment attempt maxRetries)) (\<lambda>_.
             bind (fixBuildFailure w key summ bname logs attempt) (\<lambda>fixResult.
             if \<not> success fixResult
             then throw (Error (''Build fix failed: '' @ show_undefined (r_error fixResult)))
             else
               bind (pushBuildFix w key bname attempt) (\<lambda>pushResult.
               if \<not> pushed pushResult
               then throw (Error (''Build fix produced no changes: '' @ show_undefined (reason pushResult)))
               else
                 bind (engine_mergeIntoStaging w bname) (\<lambda>_.
                 ret Continue))))))))"

function attemptLoop ::
  "world \<Rightarrow> string \<Rightarrow> string \<Rightarrow> string \<Rightarrow> string \<Rightarrow> int \<Rightarrow> int \<Rightarrow> (engine, unit) prog" where
  "attemptLoop w key bname summ wfile maxRetries attempt s =
     (if attempt \<le> maxRetries + 1 then
        (case attempt_body w key bname summ wfile maxRetries attempt s of
           (Inl e, s1) \<Rightarrow> (Inl e, s1)
         | (Inr Continue, s1) \<Rightarrow> attemptLoop w key bname summ wfile maxRetries (attempt + 1) s1
         | (Inr Return, s1) \<Rightarrow> (Inr (), s1))
      else (Inr (), s))"
  by pat_completeness auto
termination
  by (relation "measure (\<lambda>(w, key, bname, summ, wfile, maxRetries, attempt, s). nat (maxRetries + 2 - attempt))")
     auto

declare attemptLoop.simps [simp del]

definition waitForStagingWorkflow ::
  "world \<Rightarrow> Config \<Rightarrow> string \<Rightarrow> string \<Rightarrow> string \<Rightarrow> (engine, unit) prog" where
  "waitForStagingWorkflow w cfg key bname summ =
     (case actionsWorkflowFile cfg of
        None \<Rightarrow> ret ()
      | Some wfile \<Rightarrow>
          (if wfile = [] then ret ()
           else attemptLoop w key bname summ wfile (actionsMaxRetries cfg) 1))"


subsection \<open>Phase 2: implement\<close>

text \<open>The \<open>try\<close> block of \<open>handleImplementation\<close>.\<close>

definition implement_task :: "world \<Rightarrow> Config \<Rightarrow> string \<Rightarrow> TaskRow \<Rightarrow> (engine, unit) prog" where
  "implement_task w cfg key taskState =
     bind (addComment w key starting_comment) (\<lambda>_.
     bind (assign_if w key (claudeAccountId cfg)) (\<lambda>_.
     bind (engine_createBranch w key (summary taskState)) (\<lambda>bname.
     bind (implementPlan w key (summary taskState) (description taskState)
             (case plan taskState of Some pl \<Rightarrow> pl | None \<Rightarrow> []) (reviewer_notes taskState)) (\<lambda>result.
     if \<not> success result
     then throw (Error (''Implementation failed: '' @ show_undefined (r_error result) @ NL @ NL @
                        substring 0 1000 (r_output result)))
     else
       bind (pushChanges w key (summary taskState) bname) (\<lambda>pushResult.
       if \<not> pushed pushResult
       then throw (Error (''No changes to push: '' @ show_undefined (reason pushResult)))
       else
         bind (engine_mergeIntoStaging w bname) (\<lambda>_.
         bind (waitForStagingWorkflow w cfg key bname (summary taskState)) (\<lambda>_.
         bind (smokeTestStaging w) (\<lambda>testResult.
         bind (createPullRequest w bname (defaultBranchName cfg)
                 (key @ '': '' @ summary taskState)
                 (pr_body cfg key (summary taskState) (plan taskState) result (test_note testResult))) (\<lambda>pr.
         bind (addLabel w key (claudeLabel cfg @ ''-pr-pending'')) (\<lambda>_.
         bind (addComment w key (implemented_comment bname pr (test_note testResult))) (\<lambda>_.
         bind (transitionIssue w key ''Test'') (\<lambda>_.
         bind (getAssignBackId cfg key) (\<lambda>implAssignId.
         bind (assign_if w key implAssignId) (\<lambda>_.
         upsertTask key
           (no_patch\<lparr>p_phase := Some Test,
                     p_branch_name := Some (Some bname),
                     p_pr_number := Some (Some (pr_num pr)),
                     p_pr_url := Some (Some (html_url pr)),
                     p_session_id := Some (sessionId result),
                     p_cost_usd := Some (Some (or_zero (cost_usd taskState) + or_zero (costUsd result)))\<rparr>)))))))))))))))"

text \<open>The \<open>catch\<close> block of \<open>handleImplementation\<close>.\<close>

definition report_implementation_failure :: "world \<Rightarrow> Config \<Rightarrow> string \<Rightarrow> exn \<Rightarrow> (engine, unit) prog" where
  "report_implementation_failure w cfg key err =
     bind (addComment w key (implementation_error_comment (error_message err))) (\<lambda>_.
     bind (getAssignBackId cfg key) (\<lambda>implErrAssignId.
     bind (assign_if w key implErrAssignId) (\<lambda>_.
     upsertTask key (no_patch\<lparr>p_phase := Some Failed\<rparr>))))"

definition handleImplementation :: "world \<Rightarrow> Config \<Rightarrow> string \<Rightarrow> (engine, unit) prog" where
  "handleImplementation w cfg key =
     bind (gets processing) (\<lambda>busy.
     if key \<in> busy then ret ()
     else
       bind (add_processing key) (\<lambda>_.
       bind (getTask key) (\<lambda>found.
       case found of
         None \<Rightarrow> ret ()
       | Some taskState \<Rightarrow>
           try_finally
             (try_catch (implement_task w cfg key taskState) (report_implementation_failure w cfg key))
             (\<lambda>s. delete_processing key (cleanup w s)))))"

subsection \<open>Phase 1b: plan feedback\<close>

text \<open>The re-planning branch of \<open>handlePlanFeedback\<close>: the body of its \<open>try\<close> block.\<close>

definition replan :: "world \<Rightarrow> string \<Rightarrow> TaskRow \<Rightarrow> string \<Rightarrow> (engine, unit) prog" where
  "replan w key taskState commentText =
     bind (addComment w key adjusting_comment) (\<lambda>_.
     bind (createPlan w key (summary taskState) (replan_description taskState commentText)) (\<lambda>result.
     if success result then
       bind (addComment w key (updated_plan_comment (r_output result))) (\<lambda>_.
       bind (gets clock) (\<lambda>now.
       upsertTask key
         (no_patch\<lparr>p_phase := Some PlanPosted,
                   p_plan := Some (Some (r_output result)),
                   p_session_id := Some (sessionId result),
                   p_cost_usd := Some (Some (or_zero (cost_usd taskState) + or_zero (costUsd result))),
                   p_plan_posted_at := Some (Some now)\<rparr>)))
     else addComment w key (replanning_failed_comment (r_error result))))"

text \<open>\<open>reviewerNotes || null\<close>\<close>

definition notes_or_null :: "string \<Rightarrow> string option" where
  "notes_or_null notes = (if notes = [] then None else Some notes)"

definition handlePlanFeedback :: "world \<Rightarrow> Config \<Rightarrow> string \<Rightarrow> string \<Rightarrow> (engine, unit) prog" where
  "handlePlanFeedback w cfg key commentText =
     bind (gets processing) (\<lambda>busy.
     if key \<in> busy then ret ()
     else
       bind (getTask key) (\<lambda>found.
       case found of
         None \<Rightarrow> ret ()
       | Some taskState \<Rightarrow>
           if startsWith (toLowerCase commentText) ''approve'' then
             bind (upsertTask key
                     (no_patch\<lparr>p_phase := Some Approved,
                               p_reviewer_notes :=
                                 Some (notes_or_null (trim (substring_from 7 commentText)))\<rparr>)) (\<lambda>_.
             handleImplementation w cfg key)
           else
             bind (add_processing key) (\<lambda>_.
             try_finally (replan w key taskState commentText) (delete_processing key))))"

subsection \<open>Phase 2b: test feedback and rework\<close>




subsection \<open>Phase 3: merge\<close>







definition comments_of :: "jira_issue \<Rightarrow> jira_comment list" where
  "comments_of issue = (case i_comments issue of Some cs \<Rightarrow> cs | None \<Rightarrow> [])"





subsection \<open>Reconciliation: the scan of the tasks in \<open>plan-posted\<close>\<close>

text \<open>
  The loop over the comments of one issue, newest first: comments of the engine's own
  are skipped, the scan stops at the first comment that is not newer than the
  watermark, and the first comment that is newer goes to the handler.
\<close>

fun scan_comments :: "nat \<Rightarrow> (string \<Rightarrow> (engine, unit) prog) \<Rightarrow> jira_comment list \<Rightarrow> (engine, unit) prog" where
  "scan_comments watermark handler [] = ret ()"
| "scan_comments watermark handler (c # cs) =
     (if startsWith (trim (c_text c)) BOT then scan_comments watermark handler cs
      else if c_created c \<le> watermark then ret ()
      else handler (trim (c_text c)))"

definition plan_watermark :: "TaskRow \<Rightarrow> nat" where
  "plan_watermark taskState =
     (case plan_posted_at taskState of Some t \<Rightarrow> t | None \<Rightarrow> updated_at taskState)"

definition scan_plan_task :: "world \<Rightarrow> Config \<Rightarrow> TaskRow \<Rightarrow> (engine, unit) prog" where
  "scan_plan_task w cfg taskState =
     bind (gets processing) (\<lambda>busy.
     if issue_key taskState \<in> busy then ret ()
     else
       try_catch
         (bind (getIssue w (issue_key taskState)) (\<lambda>issue.
          scan_comments (plan_watermark taskState)
            (handlePlanFeedback w cfg (issue_key taskState))
            (rev (comments_of issue))))
         (\<lambda>_. ret ()))"

fun for_each :: "'a list \<Rightarrow> ('a \<Rightarrow> (engine, unit) prog) \<Rightarrow> (engine, unit) prog" where
  "for_each [] body = ret ()"
| "for_each (x # xs) body = bind (body x) (\<lambda>_. for_each xs body)"

definition reconcile_plan_posted :: "world \<Rightarrow> Config \<Rightarrow> (engine, unit) prog" where
  "reconcile_plan_posted w cfg =
     bind (getTasksByPhase PlanPosted) (\<lambda>planTasks.
     for_each planTasks (scan_plan_task w cfg))"


section \<open>Properties of the agent wrapper\<close>



section \<open>Properties of the workspace manager\<close>

subsection \<open>What a git command does to the service\<close>

text \<open>The service after it has run \<open>git c\<close> in the repository, whatever the outcome.\<close>

definition ran :: "string \<Rightarrow> ClaudeService \<Rightarrow> ClaudeService" where
  "ran c s = s\<lparr>history := history s @ [Exec (repoPath s) (''git '' @ c)]\<rparr>"




lemma ran_simps [simp]:
  "stagingLock (ran c s) = stagingLock s"
  "repoPath (ran c s) = repoPath s"
  "defaultBranch (ran c s) = defaultBranch s"
  "activeWorktrees (ran c s) = activeWorktrees s"
  "history (ran c s) = history s @ [Exec (repoPath s) (''git '' @ c)]"
  by (simp_all add: ran_def)






subsection \<open>The conflict path of \<open>mergeIntoStaging\<close>\<close>






text \<open>Example inputs: a service with one active worktree and room for one, a world where
  everything succeeds, and a world where one git command fails.\<close>

definition service0 :: ClaudeService where
  "service0 = \<lparr>repoPath = ''/repo'', worktreeBase = ''/wt'', defaultBranch = ''main'',
               maxConcurrentTasks = 1,
               activeWorktrees = [(''PROJ-1'', ''/wt/claude-PROJ-1-add-health-check'')],
               stagingLock = False, history = []\<rparr>"

definition all_ok :: os_world where
  "all_ok = \<lparr>os_run = (\<lambda>h a. Inr []), os_exists = (\<lambda>h p. True)\<rparr>"




subsection \<open>The ceiling on concurrent tasks\<close>

text \<open>
  C6.  The claim fails on the code: \<open>createBranch\<close> does not look at
  \<open>canAcceptTask\<close>.  With room for one task and one worktree active,
  \<open>canAcceptTask\<close> is false, and \<open>createBranch\<close> for a second issue still makes the
  worktree and registers it: two worktrees are active, above the maximum of one.
\<close>

theorem createBranch_ignores_ceiling:
  "\<not> canAcceptTask service0 \<and>
   fst (createBranch all_ok ''PROJ-2'' ''Fix  Login!'' service0) =
     Inr \<lparr>branchName = ''claude/PROJ-2-fix-login'',
          worktreePath = ''/wt/claude-PROJ-2-fix-login''\<rparr> \<and>
   activeWorktrees (snd (createBranch all_ok ''PROJ-2'' ''Fix  Login!'' service0)) =
     [(''PROJ-1'', ''/wt/claude-PROJ-1-add-health-check''),
      (''PROJ-2'', ''/wt/claude-PROJ-2-fix-login'')] \<and>
   maxConcurrentTasks service0 <
     int (length (activeWorktrees (snd (createBranch all_ok ''PROJ-2'' ''Fix  Login!'' service0))))"
  by (simp add: canAcceptTask_def service0_def all_ok_def createBranch_def Let_def bind_def ret_def
      ensure_worktree_base_def ignore_errors_def try_catch_def git_def gitAt_def run_action_def
      modify_def slug_of_def substring_def strip_dashes_def toLowerCase_def js_lower_char_def
      is_slug_char_def slashes_to_dashes_def path_join_def trim_def)

subsection \<open>The staging lock\<close>

text \<open>Running merges one after the other, each alone.\<close>

fun run_serial :: "os_world \<Rightarrow> string list \<Rightarrow> ClaudeService \<Rightarrow> ClaudeService" where
  "run_serial os [] s = s"
| "run_serial os (b # bs) s = run_serial os bs (snd (merge_locked os b (s\<lparr>stagingLock := True\<rparr>)))"

text \<open>The branches whose merge a schedule runs, in the order in which it runs them: a
  waiting call runs its merge the first time it is resumed.\<close>

fun merge_order :: "nat list \<Rightarrow> merge_call list \<Rightarrow> string list" where
  "merge_order [] cs = []"
| "merge_order (i # sch) cs =
     (if i < length cs then
        (case cs ! i of
           Waiting b \<Rightarrow> b # merge_order sch (cs[i := Returned (Inr True)])
         | Returned r \<Rightarrow> merge_order sch cs)
      else merge_order sch cs)"

definition waiting_of :: "merge_call list \<Rightarrow> string option list" where
  "waiting_of cs = map (\<lambda>c. case c of Waiting b \<Rightarrow> Some b | Returned r \<Rightarrow> None) cs"

lemma merge_locked_releases: "\<not> stagingLock (snd (merge_locked os b s))"
  by (simp add: merge_locked_def try_finally_def split: prod.splits)

lemma mergeIntoStaging_held: "stagingLock s \<Longrightarrow> mergeIntoStaging os b s = (Suspended, s)"
  by (simp add: mergeIntoStaging_def)

lemma mergeIntoStaging_free:
  "\<not> stagingLock s \<Longrightarrow>
   mergeIntoStaging os b s =
     (Completed (fst (merge_locked os b (s\<lparr>stagingLock := True\<rparr>))),
      snd (merge_locked os b (s\<lparr>stagingLock := True\<rparr>)))"
  by (simp add: mergeIntoStaging_def split: prod.splits)

lemma resume_call_free:
  assumes "\<not> stagingLock (service n)" "i < length (calls n)" "calls n ! i = Waiting b"
  shows "resume_call os i n =
     n\<lparr>service := snd (merge_locked os b ((service n)\<lparr>stagingLock := True\<rparr>)),
       calls := (calls n)[i := Returned (fst (merge_locked os b ((service n)\<lparr>stagingLock := True\<rparr>)))]\<rparr>"
  using assms by (simp add: resume_call_def mergeIntoStaging_free)

lemma resume_call_lock:
  "\<not> stagingLock (service n) \<Longrightarrow> \<not> stagingLock (service (resume_call os i n))"
  by (auto simp add: resume_call_def mergeIntoStaging_free merge_locked_releases
      split: merge_call.splits)

lemma run_schedule_Cons: "run_schedule os (i # sch) n = run_schedule os sch (resume_call os i n)"
  by (simp add: run_schedule_def)

lemma run_schedule_lock:
  "\<not> stagingLock (service n) \<Longrightarrow> \<not> stagingLock (service (run_schedule os sch n))"
proof (induction sch arbitrary: n)
  case Nil
  then show ?case by (simp add: run_schedule_def)
next
  case (Cons i sch)
  then show ?case by (simp add: run_schedule_Cons resume_call_lock)
qed

lemma merge_order_status:
  "waiting_of cs = waiting_of cs' \<Longrightarrow> merge_order sch cs = merge_order sch cs'"
proof (induction sch arbitrary: cs cs')
  case Nil
  then show ?case by simp
next
  case (Cons i sch)
  have len: "length cs = length cs'"
    using Cons.prems by (metis length_map waiting_of_def)
  have same: "merge_order sch cs = merge_order sch cs'"
    using Cons.IH[OF Cons.prems] .
  show ?case
  proof (cases "i < length cs")
    case False
    then show ?thesis using same len by simp
  next
    case True
    then have eq: "waiting_of cs ! i = waiting_of cs' ! i" using Cons.prems by simp
    show ?thesis
    proof (cases "cs ! i")
      case (Waiting b)
      then have w': "cs' ! i = Waiting b"
        using eq True len by (auto simp add: waiting_of_def split: merge_call.splits)
      have "waiting_of (cs[i := Returned (Inr True)]) = waiting_of (cs'[i := Returned (Inr True)])"
        using Cons.prems by (simp add: waiting_of_def map_update)
      then have "merge_order sch (cs[i := Returned (Inr True)]) =
          merge_order sch (cs'[i := Returned (Inr True)])"
        by (rule Cons.IH)
      then show ?thesis
        using Waiting w' True len by simp
    next
      case (Returned r)
      then obtain r' where "cs' ! i = Returned r'"
        using eq True len by (auto simp add: waiting_of_def split: merge_call.splits)
      then show ?thesis
        using Returned True len same by simp
    qed
  qed
qed

lemma run_schedule_serial:
  "\<not> stagingLock (service n) \<Longrightarrow>
   service (run_schedule os sch n) = run_serial os (merge_order sch (calls n)) (service n)"
proof (induction sch arbitrary: n)
  case Nil
  then show ?case by (simp add: run_schedule_def)
next
  case (Cons i sch)
  show ?case
  proof (cases "i < length (calls n)")
    case False
    then have "resume_call os i n = n" by (simp add: resume_call_def)
    then show ?thesis using Cons.IH[OF Cons.prems] False by (simp add: run_schedule_Cons)
  next
    case True
    show ?thesis
    proof (cases "calls n ! i")
      case (Returned r)
      then have "resume_call os i n = n" using True by (simp add: resume_call_def)
      then show ?thesis using Cons.IH[OF Cons.prems] True Returned by (simp add: run_schedule_Cons)
    next
      case (Waiting b)
      let ?r = "fst (merge_locked os b ((service n)\<lparr>stagingLock := True\<rparr>))"
      let ?s = "snd (merge_locked os b ((service n)\<lparr>stagingLock := True\<rparr>))"
      let ?n = "n\<lparr>service := ?s, calls := (calls n)[i := Returned ?r]\<rparr>"
      have step: "resume_call os i n = ?n"
        using resume_call_free[OF Cons.prems True Waiting] .
      have free: "\<not> stagingLock (service ?n)"
        by (simp add: merge_locked_releases)
      have mo: "merge_order sch (calls ?n) = merge_order sch ((calls n)[i := Returned (Inr True)])"
        by (rule merge_order_status) (simp add: waiting_of_def map_update)
      show ?thesis
        using Cons.IH[OF free] mo step True Waiting by (simp add: run_schedule_Cons)
    qed
  qed
qed

text \<open>
  C9.  Calls of \<open>mergeIntoStaging\<close> for any branches, resumed by the event loop in any
  order, starting with the lock free: whatever the schedule, the lock is free again
  after every turn (it is released on every exit path of the merge, and no merge is
  left in flight between turns), and the service ends in the state that running the
  same merges one after the other, each alone and to its end, gives: the merges never
  interleave.  A call that finds the lock taken suspends and runs nothing, and a call
  that takes the lock has released it when its turn ends, whatever git did.
\<close>

theorem staging_merges_are_serial:
  assumes "\<not> stagingLock (service n)"
  shows "\<not> stagingLock (service (run_schedule os sch n))
    \<and> service (run_schedule os sch n) = run_serial os (merge_order sch (calls n)) (service n)
    \<and> (\<forall>s b. stagingLock s \<longrightarrow> mergeIntoStaging os b s = (Suspended, s))
    \<and> (\<forall>s b. \<not> stagingLock (snd (mergeIntoStaging os b (s\<lparr>stagingLock := False\<rparr>))))"
  using assms run_schedule_lock[of n os sch] run_schedule_serial[of n os sch] mergeIntoStaging_held
  by (simp add: mergeIntoStaging_free merge_locked_releases)

definition node0 :: node where
  "node0 = \<lparr>service = service0,
            calls = [Waiting ''claude/PROJ-1-add-health-check'', Waiting ''claude/PROJ-2-fix-login'']\<rparr>"

theorem staging_merges_are_serial_witness:
  "\<not> stagingLock (service node0) \<and>
   \<not> stagingLock (service (run_schedule all_ok [1, 0, 1] node0)) \<and>
   service (run_schedule all_ok [1, 0, 1] node0) =
     run_serial all_ok [''claude/PROJ-2-fix-login'', ''claude/PROJ-1-add-health-check''] service0"
  using staging_merges_are_serial [of node0 all_ok "[1, 0, 1]"]
  by (simp add: node0_def service0_def merge_locked_releases)


section \<open>Properties of the engine\<close>

subsection \<open>Invariants of the store and of the set of keys in process\<close>

text \<open>
  \<open>stable I m\<close>: the program \<open>m\<close> keeps the property \<open>I\<close> of the rows and of the
  keys in process, whatever its collaborators answer.  Calls of the collaborators change
  neither, so a handler keeps what its own writes keep.
\<close>

definition stable :: "(TaskRow list \<Rightarrow> string set \<Rightarrow> bool) \<Rightarrow> (engine, 'a) prog \<Rightarrow> bool" where
  "stable I m = (\<forall>s. I (tasks s) (processing s) \<longrightarrow> I (tasks (snd (m s))) (processing (snd (m s))))"

named_theorems stable_intros

lemma stable_ret [stable_intros]: "stable I (ret x)"
  by (simp add: stable_def ret_def)

lemma stable_throw [stable_intros]: "stable I (throw e)"
  by (simp add: stable_def throw_def)

lemma stable_gets [stable_intros]: "stable I (gets f)"
  by (simp add: stable_def gets_def)

lemma stable_bind [stable_intros]:
  "stable I m \<Longrightarrow> (\<And>x. stable I (f x)) \<Longrightarrow> stable I (bind m f)"
proof (unfold stable_def, intro allI impI)
  fix s :: engine assume I: "I (tasks s) (processing s)"
  assume m: "\<forall>s. I (tasks s) (processing s) \<longrightarrow> I (tasks (snd (m s))) (processing (snd (m s)))"
  assume f: "\<And>x. \<forall>s. I (tasks s) (processing s) \<longrightarrow> I (tasks (snd (f x s))) (processing (snd (f x s)))"
  obtain r s1 where ms: "m s = (r, s1)" by fastforce
  have I1: "I (tasks s1) (processing s1)" using m I ms by (metis snd_conv)
  show "I (tasks (snd (bind m f s))) (processing (snd (bind m f s)))"
  proof (cases r)
    case (Inl e)
    then show ?thesis using ms I1 by (simp add: bind_def)
  next
    case (Inr x)
    then have "bind m f s = f x s1" using ms by (simp add: bind_def)
    then show ?thesis using f I1 by simp
  qed
qed

lemma stable_try_catch [stable_intros]:
  "stable I m \<Longrightarrow> (\<And>e. stable I (h e)) \<Longrightarrow> stable I (try_catch m h)"
proof (unfold stable_def, intro allI impI)
  fix s :: engine assume I: "I (tasks s) (processing s)"
  assume m: "\<forall>s. I (tasks s) (processing s) \<longrightarrow> I (tasks (snd (m s))) (processing (snd (m s)))"
  assume h: "\<And>e. \<forall>s. I (tasks s) (processing s) \<longrightarrow> I (tasks (snd (h e s))) (processing (snd (h e s)))"
  obtain r s1 where ms: "m s = (r, s1)" by fastforce
  have I1: "I (tasks s1) (processing s1)" using m I ms by (metis snd_conv)
  show "I (tasks (snd (try_catch m h s))) (processing (snd (try_catch m h s)))"
  proof (cases r)
    case (Inr x)
    then show ?thesis using ms I1 by (simp add: try_catch_def)
  next
    case (Inl e)
    then have "try_catch m h s = h e s1" using ms by (simp add: try_catch_def)
    then show ?thesis using h I1 by simp
  qed
qed

lemma stable_ext [stable_intros]: "stable I (ext w outcome c)"
  by (simp add: stable_def ext_def record_call_def)

lemma stable_sleep [stable_intros]: "stable I (sleep ms)"
  by (simp add: stable_def sleep_def)

lemma stable_if [stable_intros]:
  "(b \<Longrightarrow> stable I m1) \<Longrightarrow> (\<not> b \<Longrightarrow> stable I m2) \<Longrightarrow> stable I (if b then m1 else m2)"
  by simp

lemma stable_case_option [stable_intros]:
  "(x = None \<Longrightarrow> stable I m1) \<Longrightarrow> (\<And>y. x = Some y \<Longrightarrow> stable I (m2 y)) \<Longrightarrow> stable I (case x of None \<Rightarrow> m1 | Some y \<Rightarrow> m2 y)"
  by (cases x) simp_all

lemma stable_find_run [stable_intros]: "stable I (find_run w wfile pushTime n)"
  by (induction n) (auto intro!: stable_intros simp add: findWorkflowRun_def)

lemma stable_pollLoop [stable_intros]: "stable I (pollLoop w runId start idx)"
  unfolding stable_def
proof (intro allI impI)
  fix s :: engine assume "I (tasks s) (processing s)"
  then show "I (tasks (snd (pollLoop w runId start idx s))) (processing (snd (pollLoop w runId start idx s)))"
  proof (induction w runId start idx s rule: pollLoop.induct)
    case (1 w runId start idx s)
    show ?case
    proof (cases "clock s - start < maxPollTime")
      case False
      then show ?thesis using 1 by (simp add: pollLoop.simps)
    next
      case True
      obtain r s1 where g: "getWorkflowRunStatus w runId s = (r, s1)" by fastforce
      then have s1: "tasks s1 = tasks s" "processing s1 = processing s"
        by (auto simp add: getWorkflowRunStatus_def ext_def record_call_def)
      show ?thesis
      proof (cases r)
        case (Inl e)
        then show ?thesis using True g s1 1(2) by (simp add: pollLoop.simps)
      next
        case (Inr st)
        show ?thesis
        proof (cases "fst st = ''completed''")
          case True
          with \<open>clock s - start < maxPollTime\<close> g Inr s1 1(2) show ?thesis by (simp add: pollLoop.simps)
        next
          case False
          have "I (tasks (snd (sleep (poll_delay idx) s1))) (processing (snd (sleep (poll_delay idx) s1)))"
            using s1 1(2) by (simp add: sleep_def)
          from 1(1)[OF True g[symmetric] Inr False this] True g Inr False
          show ?thesis by (simp add: pollLoop.simps)
        qed
      qed
    qed
  qed
qed


lemma stable_try_finally [stable_intros]:
  "stable I m \<Longrightarrow> (\<And>s. I (tasks s) (processing s) \<Longrightarrow> I (tasks (fin s)) (processing (fin s)))
   \<Longrightarrow> stable I (try_finally m fin)"
  by (simp add: stable_def try_finally_def split: prod.splits) (metis snd_conv)

lemma stable_modify:
  "(\<And>s. I (tasks s) (processing s) \<Longrightarrow> I (tasks (f s)) (processing (f s))) \<Longrightarrow> stable I (modify f)"
  by (simp add: stable_def modify_def)

lemma stable_upsertTask:
  "(\<And>now rows rows' busy. I rows busy \<Longrightarrow> upsert_rows now key p rows = Inr rows' \<Longrightarrow> I rows' busy)
   \<Longrightarrow> stable I (upsertTask key p)"
  by (auto simp add: stable_def upsertTask_def split: sum.splits)


lemma stable_add_processing:
  "(\<And>rows busy. I rows busy \<Longrightarrow> I rows (insert key busy)) \<Longrightarrow> stable I (add_processing key)"
  by (simp add: stable_def add_processing_def modify_def)

lemma stable_services [stable_intros]:
  "stable I (transitionIssue w key st)"
  "stable I (addComment w key text)"
  "stable I (assignIssue w key a)"
  "stable I (addLabel w key l)"
  "stable I (removeLabel w key l)"
  "stable I (getIssue w key)"
  "stable I (createPlan w key summ descr)"
  "stable I (implementPlan w key summ descr pl notes)"
  "stable I (rework w key summ descr pl fb bname sid)"
  "stable I (fixBuildFailure w key summ bname logs attempt)"
  "stable I (engine_createBranch w key summ)"
  "stable I (pushChanges w key summ bname)"
  "stable I (pushRework w key bname fb)"
  "stable I (pushBuildFix w key bname attempt)"
  "stable I (engine_mergeIntoStaging w bname)"
  "stable I (smokeTestStaging w)"
  "stable I (createPullRequest w h base title body)"
  "stable I (getPullRequest w n)"
  "stable I (mergePullRequest w n title method)"
  "stable I (deleteBranch w bname)"
  "stable I (findWorkflowRun w wfile bname after)"
  "stable I (getWorkflowRunStatus w runId)"
  "stable I (getFailedJobLogs w runId)"
  "stable I (getTask key)"
  "stable I (getTasksByPhase ph)"
  by (simp_all add: transitionIssue_def addComment_def assignIssue_def addLabel_def removeLabel_def
      getIssue_def createPlan_def implementPlan_def rework_def fixBuildFailure_def
      engine_createBranch_def pushChanges_def pushRework_def pushBuildFix_def
      engine_mergeIntoStaging_def smokeTestStaging_def createPullRequest_def getPullRequest_def
      mergePullRequest_def deleteBranch_def findWorkflowRun_def getWorkflowRunStatus_def
      getFailedJobLogs_def getTask_def getTasksByPhase_def stable_ext stable_gets)

lemma stable_assign_if [stable_intros]: "stable I (assign_if w key a)"
  by (auto simp add: assign_if_def intro!: stable_intros split: option.splits)

lemma stable_getAssignBackId [stable_intros]: "stable I (getAssignBackId cfg key)"
  by (auto simp add: getAssignBackId_def intro!: stable_intros)

lemma stable_pollWorkflowRun [stable_intros]: "stable I (pollWorkflowRun w key runId)"
  using stable_pollLoop[of I w runId] by (auto simp add: stable_def pollWorkflowRun_def)

lemma stable_attempt_body [stable_intros]:
  "stable I (attempt_body w key bname summ wfile maxRetries attempt)"
  unfolding attempt_body_def
  by (intro stable_intros) 


lemma stable_attemptLoop [stable_intros]:
  "stable I (attemptLoop w key bname summ wfile maxRetries attempt)"
  unfolding stable_def
proof (intro allI impI)
  fix s :: engine assume "I (tasks s) (processing s)"
  then show "I (tasks (snd (attemptLoop w key bname summ wfile maxRetries attempt s)))
               (processing (snd (attemptLoop w key bname summ wfile maxRetries attempt s)))"
  proof (induction w key bname summ wfile maxRetries attempt s rule: attemptLoop.induct)
    case (1 w key bname summ wfile maxRetries attempt s)
    show ?case
    proof (cases "attempt \<le> maxRetries + 1")
      case False
      then show ?thesis using 1(2) by (simp add: attemptLoop.simps)
    next
      case True
      obtain r s1 where b: "attempt_body w key bname summ wfile maxRetries attempt s = (r, s1)"
        by fastforce
      have I1: "I (tasks s1) (processing s1)"
        using stable_attempt_body[of I w key bname summ wfile maxRetries attempt] 1(2) b
        unfolding stable_def by (metis snd_conv)
      show ?thesis
      proof (cases r)
        case (Inl e)
        then show ?thesis using True b I1 by (simp add: attemptLoop.simps)
      next
        case (Inr step)
        show ?thesis
        proof (cases step)
          case Return
          then show ?thesis using True b Inr I1 by (simp add: attemptLoop.simps)
        next
          case Continue
          from 1(1)[OF True b[symmetric] Inr Continue I1] True b Inr Continue
          show ?thesis by (simp add: attemptLoop.simps)
        qed
      qed
    qed
  qed
qed

lemma stable_waitForStagingWorkflow [stable_intros]:
  "stable I (waitForStagingWorkflow w cfg key bname summ)"
  unfolding waitForStagingWorkflow_def
  by (intro stable_intros)

subsection \<open>Rows\<close>


lemma get_row_map_other:
  "(\<And>r. issue_key (f r) = issue_key r) \<Longrightarrow> k \<noteq> key \<Longrightarrow> get_row k (map (\<lambda>r. if issue_key r = key then f r else r) rows) = get_row k rows"
  by (induction rows) (auto simp add: get_row_def)

lemma get_row_map_same:
  "(\<And>r. issue_key (f r) = issue_key r) \<Longrightarrow>
   get_row key (map (\<lambda>r. if issue_key r = key then f r else r) rows) = map_option f (get_row key rows)"
  by (induction rows) (auto simp add: get_row_def)

lemma issue_key_update_row [simp]: "issue_key (update_row now p r) = issue_key r"
  by (simp add: update_row_def)

lemma phase_update_row [simp]: "phase (update_row now p r) = supplied (p_phase p) (phase r)"
  by (simp add: update_row_def)

lemma get_row_append_other:
  "k \<noteq> issue_key r \<Longrightarrow> get_row k (rows @ [r]) = get_row k rows"
  by (induction rows) (auto simp add: get_row_def)

lemma get_row_upsert_other:
  "k \<noteq> key \<Longrightarrow> upsert_rows now key p rows = Inr rows' \<Longrightarrow> get_row k rows' = get_row k rows"
  by (auto simp add: upsert_rows_def get_row_map_other get_row_append_other new_row_def
      split: option.splits)

lemma upsert_rows_existing:
  "get_row key rows = Some r \<Longrightarrow>
   upsert_rows now key p rows = Inr (map (\<lambda>r. if issue_key r = key then update_row now p r else r) rows)"
  by (simp add: upsert_rows_def)


lemma upsert_rows_missing_no_phase:
  "get_row key rows = None \<Longrightarrow> p_phase p = None \<Longrightarrow> isl (upsert_rows now key p rows)"
  by (simp add: upsert_rows_def)

subsection \<open>What the handlers keep\<close>

text \<open>The patches that \<open>handleImplementation\<close> and the re-planning write: they set the
  phase and leave the reviewer's notes alone.\<close>

definition impl_patch :: "TaskPatch \<Rightarrow> bool" where
  "impl_patch p = ((p_phase p = Some Test \<or> p_phase p = Some Failed) \<and> p_reviewer_notes p = None)"

definition replan_patch :: "TaskPatch \<Rightarrow> bool" where
  "replan_patch p = (p_phase p = Some PlanPosted \<and> p_reviewer_notes p = None)"

lemma stable_implement_task:
  assumes "\<And>now rows rows' busy p. upsert_rows now key p rows = Inr rows' \<Longrightarrow> impl_patch p \<Longrightarrow>
             I rows busy \<Longrightarrow> I rows' busy"
  shows "stable I (implement_task w cfg key r)"
  unfolding implement_task_def
  by (intro stable_intros stable_upsertTask) (erule assms, simp_all add: impl_patch_def no_patch_def)

lemma stable_report_implementation_failure:
  assumes "\<And>now rows rows' busy p. upsert_rows now key p rows = Inr rows' \<Longrightarrow> impl_patch p \<Longrightarrow>
             I rows busy \<Longrightarrow> I rows' busy"
  shows "stable I (report_implementation_failure w cfg key e)"
  unfolding report_implementation_failure_def
  by (intro stable_intros stable_upsertTask) (erule assms, simp_all add: impl_patch_def no_patch_def)

lemma stable_handleImplementation:
  assumes up: "\<And>now rows rows' busy p. upsert_rows now key p rows = Inr rows' \<Longrightarrow> impl_patch p \<Longrightarrow>
             I rows busy \<Longrightarrow> I rows' busy"
    and ins: "\<And>rows busy. I rows busy \<Longrightarrow> I rows (insert key busy)"
    and del: "\<And>rows busy. I rows busy \<Longrightarrow> I rows (busy - {key})"
  shows "stable I (handleImplementation w cfg key)"
proof -
  have t: "stable I (implement_task w cfg key r)" for r
    by (rule stable_implement_task) (erule up)
  have c: "stable I (report_implementation_failure w cfg key e)" for e
    by (rule stable_report_implementation_failure) (erule up)
  show ?thesis
    unfolding handleImplementation_def
    apply (intro stable_intros stable_add_processing t c)
     apply (erule ins)
    apply (simp add: delete_processing_def cleanup_def record_call_def del)
    done
qed

lemma stable_replan:
  assumes "\<And>now rows rows' busy p. upsert_rows now key p rows = Inr rows' \<Longrightarrow> replan_patch p \<Longrightarrow>
             I rows busy \<Longrightarrow> I rows' busy"
  shows "stable I (replan w key r text)"
  unfolding replan_def
  by (intro stable_intros stable_upsertTask) (erule assms, simp_all add: replan_patch_def no_patch_def)

lemma stable_handlePlanFeedback:
  assumes up: "\<And>now rows rows' busy p. upsert_rows now key p rows = Inr rows' \<Longrightarrow> p_phase p \<noteq> None \<Longrightarrow>
             I rows busy \<Longrightarrow> I rows' busy"
    and ins: "\<And>rows busy. I rows busy \<Longrightarrow> I rows (insert key busy)"
    and del: "\<And>rows busy. I rows busy \<Longrightarrow> I rows (busy - {key})"
  shows "stable I (handlePlanFeedback w cfg key text)"
proof -
  have impl: "stable I (handleImplementation w cfg key)"
    by (rule stable_handleImplementation) (auto intro: ins del elim: up simp add: impl_patch_def)
  have re: "stable I (replan w key r text)" for r
    by (rule stable_replan) (auto elim: up simp add: replan_patch_def)
  show ?thesis
    unfolding handlePlanFeedback_def
    apply (intro stable_intros stable_add_processing stable_upsertTask impl re)
      apply (erule up, simp, assumption)
     apply (erule ins)
    apply (simp add: delete_processing_def del)
    done
qed












subsection \<open>Programs that write the store last\<close>














subsection \<open>Example inputs\<close>

text \<open>
  A world in which every call succeeds (the agent answers \<open>the plan\<close> at a cost of 1, no
  CI workflow is configured), the same world with an agent that fails, and a store with
  one task, \<open>PROJ-1\<close>, in a given phase, with an accrued cost of 5 and a plan posted at
  time 500.
\<close>

definition agent_result :: "bool \<Rightarrow> real \<Rightarrow> ClaudeResult" where
  "agent_result ok cost =
     \<lparr>success = ok, r_output = ''the plan'', sessionId = Some ''sess-1'', costUsd = Some cost,
      r_error = (if ok then None else Some ''boom'')\<rparr>"

definition world_ok :: world where
  "world_ok =
     \<lparr>w_void = (\<lambda>n c. Inr ()),
      w_agent = (\<lambda>n c. Inr (agent_result True 1)),
      w_branch = (\<lambda>n c. Inr ''claude/PROJ-1-add-health-check''),
      w_push = (\<lambda>n c. Inr \<lparr>pushed = True, reason = None\<rparr>),
      w_smoke = (\<lambda>n. \<lparr>tested = False, passed = None, smoke_output = None,
                       smoke_reason = Some ''No staging URL configured''\<rparr>),
      w_pr_created = (\<lambda>n c. Inr \<lparr>pr_num = 42, html_url = ''https://github.com/o/r/pull/42''\<rparr>),
      w_pr = (\<lambda>n c. Inr \<lparr>pr_state = ''open'', head_ref = ''claude/PROJ-1-add-health-check'',
                          pr_title = ''PROJ-1: Add health check''\<rparr>),
      w_run = (\<lambda>n c. Inr (Some 7)),
      w_status = (\<lambda>n c. Inr (''completed'', Some ''failure'')),
      w_logs = (\<lambda>n c. Inr ''npm ERR!''),
      w_issue = (\<lambda>n c. Inr \<lparr>i_status = Some ''In Progress'', i_assignee = None,
                             i_comments = Some []\<rparr>),
      latency = (\<lambda>n. 1)\<rparr>"

definition world_agent_fails :: world where
  "world_agent_fails = world_ok\<lparr>w_agent := (\<lambda>n c. Inr (agent_result False 1))\<rparr>"

definition cfg0 :: Config where
  "cfg0 = \<lparr>claudeAccountId = Some ''claude'', claudeLabel = ''claude-bot'', yourAccountId = Some ''me'',
           actionsWorkflowFile = None, actionsMaxRetries = 2, jiraBaseUrl = ''https://jira.example'',
           defaultBranchName = ''main''\<rparr>"

definition row0 :: "TaskPhase \<Rightarrow> TaskRow" where
  "row0 ph =
     \<lparr>issue_key = ''PROJ-1'', phase = ph, summary = ''Add health check'',
      description = ''Please add /health'', plan = Some ''old plan'',
      branch_name = Some ''claude/PROJ-1-add-health-check'', pr_number = Some 42,
      pr_url = Some ''https://github.com/o/r/pull/42'', worktree_path = None,
      reviewer_notes = None, session_id = Some ''sess-0'', cost_usd = Some 5,
      plan_posted_at = Some 500, creator_account_id = None, last_feedback_check = None,
      created_at = 100, updated_at = 500\<rparr>"

definition engine0 :: "TaskRow list \<Rightarrow> engine" where
  "engine0 rows = \<lparr>tasks = rows, processing = {}, clock = 1000, trace = []\<rparr>"

definition issue0 :: new_issue where
  "issue0 = \<lparr>ni_key = ''PROJ-1'', ni_summary = ''Add health check'',
             ni_description = ''Please add /health'', ni_reporter = None\<rparr>"

text \<open>A comment that posts a first plan on the issue.\<close>

definition is_plan_post :: "string \<Rightarrow> call \<Rightarrow> bool" where
  "is_plan_post key c =
     (case c of
        AddComment k t \<Rightarrow> k = key \<and> startsWith t (BOT @ '' **Implementation Plan:**'')
      | _ \<Rightarrow> False)"

lemmas engine_defs = bind_def ret_def throw_def try_catch_def try_finally_def modify_def gets_def
  ext_def record_call_def sleep_def getTask_def upsertTask_def getTasksByPhase_def deleteTask_def
  transitionIssue_def addComment_def assignIssue_def addLabel_def removeLabel_def getIssue_def
  createPlan_def implementPlan_def rework_def fixBuildFailure_def engine_createBranch_def
  pushChanges_def pushRework_def pushBuildFix_def engine_mergeIntoStaging_def smokeTestStaging_def
  cleanup_def createPullRequest_def getPullRequest_def mergePullRequest_def deleteBranch_def
  findWorkflowRun_def getWorkflowRunStatus_def getFailedJobLogs_def
  assign_if_def getAssignBackId_def add_processing_def delete_processing_def
  get_row_def upsert_rows_def update_row_def new_row_def supplied_def no_patch_def nullish_def
  or_zero_def is_plan_posted_def

lemmas example_defs = world_ok_def world_agent_fails_def cfg0_def row0_def engine0_def issue0_def
  agent_result_def

subsection \<open>The accrued cost\<close>



subsection \<open>Running a handler on given answers\<close>

lemmas exec_defs = bind_def ret_def throw_def try_catch_def try_finally_def modify_def gets_def
  ext_def record_call_def sleep_def getTask_def upsertTask_def getTasksByPhase_def deleteTask_def
  transitionIssue_def addComment_def assignIssue_def addLabel_def removeLabel_def getIssue_def
  createPlan_def implementPlan_def rework_def fixBuildFailure_def engine_createBranch_def
  pushChanges_def pushRework_def pushBuildFix_def engine_mergeIntoStaging_def smokeTestStaging_def
  cleanup_def createPullRequest_def getPullRequest_def mergePullRequest_def deleteBranch_def
  findWorkflowRun_def getWorkflowRunStatus_def getFailedJobLogs_def
  assign_if_def getAssignBackId_def add_processing_def delete_processing_def




lemma issue_key_new_row [simp]: "issue_key (new_row now key ph p) = key"
  by (simp add: new_row_def)

lemma phase_new_row [simp]: "phase (new_row now key ph p) = ph"
  by (simp add: new_row_def)

lemma reviewer_notes_update_row [simp]:
  "reviewer_notes (update_row now p r) = supplied (p_reviewer_notes p) (reviewer_notes r)"
  by (simp add: update_row_def)


lemma fst_try_finally: "fst (try_finally m fin s) = fst (m s)"
  by (simp add: try_finally_def split: prod.splits)

subsection \<open>New tasks\<close>





lemma is_plan_post_simps [simp]:
  "is_plan_post key (AddComment k (plan_comment pl)) = (k = key)"
  "\<not> is_plan_post key (AddComment k analyzing_comment)"
  "\<not> is_plan_post key (TransitionIssue k st)"
  "\<not> is_plan_post key (CreatePlan k a b)"
  "\<not> is_plan_post key (AssignIssue k a)"
  by (simp_all add: is_plan_post_def startsWith_def plan_comment_def analyzing_comment_def BOT_def)




subsection \<open>Plan feedback: approval or feedback\<close>

text \<open>The notes an approval stores, and its write to the store.\<close>

definition approval_notes :: "string \<Rightarrow> string option" where
  "approval_notes text = notes_or_null (trim (substring_from 7 text))"

definition approve_patch :: "string \<Rightarrow> TaskPatch" where
  "approve_patch text =
     no_patch\<lparr>p_phase := Some Approved, p_reviewer_notes := Some (approval_notes text)\<rparr>"


lemma handlePlanFeedback_approve:
  assumes row: "get_row key (tasks s) = Some row" and free: "key \<notin> processing s"
    and approve: "startsWith (toLowerCase text) ''approve''"
  shows "handlePlanFeedback w cfg key text s =
     handleImplementation w cfg key
       (s\<lparr>tasks := map (\<lambda>r. if issue_key r = key then update_row (clock s) (approve_patch text) r else r)
                       (tasks s)\<rparr>)"
  unfolding approve_patch_def approval_notes_def
  using assms
  by (simp add: handlePlanFeedback_def bind_def gets_def getTask_def upsertTask_def
      upsert_rows_existing)

lemma handlePlanFeedback_feedback:
  assumes row: "get_row key (tasks s) = Some row" and free: "key \<notin> processing s"
    and other: "\<not> startsWith (toLowerCase text) ''approve''"
  shows "handlePlanFeedback w cfg key text s =
     try_finally (replan w key row text) (delete_processing key)
       (s\<lparr>processing := insert key (processing s)\<rparr>)"
  using assms
  by (simp add: handlePlanFeedback_def bind_def gets_def getTask_def add_processing_def modify_def)







subsection \<open>Failures and the phase of a task\<close>






subsection \<open>The plan watermark and approvals\<close>


text \<open>The rows of a key, and the comment that the scan of a task's comments picks
  (the newest one that is not the bot's, when it is newer than the watermark).\<close>

definition rows_of :: "string \<Rightarrow> TaskRow list \<Rightarrow> TaskRow list" where
  "rows_of k rows = filter (\<lambda>r. issue_key r = k) rows"

fun picked :: "nat \<Rightarrow> jira_comment list \<Rightarrow> string option" where
  "picked watermark [] = None"
| "picked watermark (c # cs) =
     (if startsWith (trim (c_text c)) BOT then picked watermark cs
      else if c_created c \<le> watermark then None
      else Some (trim (c_text c)))"

lemma scan_comments_picked:
  "scan_comments wm h cs = (case picked wm cs of None \<Rightarrow> ret () | Some t \<Rightarrow> h t)"
  by (induction cs) simp_all

lemma picked_old: "\<forall>c\<in>set cs. c_created c \<le> wm \<Longrightarrow> picked wm cs = None"
  by (induction cs) simp_all

lemma get_row_rows_of: "rows_of k rows = [r] \<Longrightarrow> get_row k rows = Some r"
  by (induction rows) (auto simp add: rows_of_def get_row_def split: if_splits)

lemma rows_of_map_other:
  "(\<And>r. issue_key (f r) = issue_key r) \<Longrightarrow> k \<noteq> key \<Longrightarrow>
   rows_of k (map (\<lambda>r. if issue_key r = key then f r else r) rows) = rows_of k rows"
  by (induction rows) (auto simp add: rows_of_def)

lemma rows_of_map_same:
  "(\<And>r. issue_key (f r) = issue_key r) \<Longrightarrow>
   rows_of key (map (\<lambda>r. if issue_key r = key then f r else r) rows) = map f (rows_of key rows)"
  by (induction rows) (auto simp add: rows_of_def)

lemma rows_of_upsert_other:
  "k \<noteq> key \<Longrightarrow> upsert_rows now key p rows = Inr rows' \<Longrightarrow> rows_of k rows' = rows_of k rows"
  by (auto simp add: upsert_rows_def rows_of_map_other split: option.splits)
     (simp add: rows_of_def)

lemma rows_of_upsert_same:
  "get_row key rows = Some r \<Longrightarrow> upsert_rows now key p rows = Inr rows' \<Longrightarrow>
   rows_of key rows' = map (update_row now p) (rows_of key rows)"
  by (auto simp add: upsert_rows_existing rows_of_map_same)

lemma plan_posted_at_update_row [simp]:
  "plan_posted_at (update_row now p r) = supplied (p_plan_posted_at p) (plan_posted_at r)"
  by (simp add: update_row_def)

lemma stable_scan_comments:
  "(\<And>t. stable I (h t)) \<Longrightarrow> stable I (scan_comments wm h cs)"
  by (simp add: scan_comments_picked stable_ret split: option.splits)

lemma stable_for_each:
  "(\<And>x. x \<in> set xs \<Longrightarrow> stable I (body x)) \<Longrightarrow> stable I (for_each xs body)"
  by (induction xs) (auto intro!: stable_intros)

lemma scan_plan_task_returns: "fst (scan_plan_task w cfg r s) = Inr ()"
  by (simp add: scan_plan_task_def bind_def gets_def ret_def try_catch_def
      split: prod.splits sum.splits)

lemma for_each_Cons_total:
  "(\<And>x s. fst (body x s) = Inr ()) \<Longrightarrow>
   for_each (x # xs) body s = for_each xs body (snd (body x s))"
proof -
  assume tot: "\<And>x s. fst (body x s) = Inr ()"
  obtain a b where ab: "body x s = (a, b)" by fastforce
  have "a = Inr ()" using tot[of x s] ab by simp
  then show ?thesis using ab by (simp add: bind_def)
qed

lemma for_each_append_total:
  assumes "\<And>x s. fst (body x s) = Inr ()"
  shows "for_each (xs @ ys) body s = for_each ys body (snd (for_each xs body s))"
proof (induction xs arbitrary: s)
  case Nil
  show ?case by (simp add: ret_def)
next
  case (Cons x xs)
  have "for_each ((x # xs) @ ys) body s = for_each (xs @ ys) body (snd (body x s))"
    using for_each_Cons_total[of body x "xs @ ys" s] assms by simp
  also have "\<dots> = for_each ys body (snd (for_each xs body (snd (body x s))))"
    by (rule Cons.IH)
  also have "for_each xs body (snd (body x s)) = for_each (x # xs) body s"
    using for_each_Cons_total[of body x xs s] assms by simp
  finally show ?case .
qed

lemma stable_scan_plan_task_other:
  assumes "issue_key r \<noteq> k"
  shows "stable (\<lambda>rows busy. rows_of k rows = X \<and> (k \<in> busy) = b) (scan_plan_task w cfg r)"
proof -
  have h: "stable (\<lambda>rows busy. rows_of k rows = X \<and> (k \<in> busy) = b)
             (handlePlanFeedback w cfg (issue_key r) t)" for t
  proof (rule stable_handlePlanFeedback)
    fix now rows rows' and busy :: "string set" and p
    assume u: "upsert_rows now (issue_key r) p rows = Inr rows'"
      and I: "rows_of k rows = X \<and> (k \<in> busy) = b"
    have "rows_of k rows' = rows_of k rows"
      using rows_of_upsert_other[OF _ u, of k] assms by auto
    then show "rows_of k rows' = X \<and> (k \<in> busy) = b" using I by simp
  qed (use assms in auto)
  show ?thesis
    unfolding scan_plan_task_def
    by (intro stable_intros stable_scan_comments h)
qed

lemma snd_try_catch_ret: "snd (try_catch m (\<lambda>_. ret ()) s) = snd (m s)"
  by (simp add: try_catch_def ret_def split: prod.splits sum.splits)

text \<open>The task has one row, and it is past \<open>plan-posted\<close>.\<close>

definition advanced :: "string \<Rightarrow> TaskRow list \<Rightarrow> bool" where
  "advanced k rows =
     (\<exists>r. rows_of k rows = [r] \<and> (phase r = Approved \<or> phase r = Test \<or> phase r = Failed))"

lemma scan_plan_task_approves:
  assumes one: "rows_of k (tasks t) = [r]" and key: "issue_key r = k"
    and free: "k \<notin> processing t"
    and issue: "\<forall>n. w_issue w n (GetIssue k) = Inr issue"
    and pick: "picked (plan_watermark r) (rev (comments_of issue)) = Some text"
    and approve: "startsWith (toLowerCase text) ''approve''"
  shows "advanced k (tasks (snd (scan_plan_task w cfg r t)))"
proof -
  let ?t1 = "record_call w (GetIssue k) t"
  let ?t2 = "?t1\<lparr>tasks := map (\<lambda>x. if issue_key x = k then update_row (clock ?t1) (approve_patch text) x else x)
                       (tasks ?t1)\<rparr>"
  have row1: "get_row k (tasks ?t1) = Some r"
    using get_row_rows_of[OF one] by (simp add: record_call_def)
  have free1: "k \<notin> processing ?t1"
    using free by (simp add: record_call_def)
  have "scan_plan_task w cfg r t = try_catch (handlePlanFeedback w cfg k text) (\<lambda>_. ret ()) ?t1"
    using key free issue pick
    by (simp add: scan_plan_task_def bind_def gets_def getIssue_def ext_def scan_comments_picked
        try_catch_def)
  then have eq: "snd (scan_plan_task w cfg r t) = snd (handleImplementation w cfg k ?t2)"
    using handlePlanFeedback_approve[OF row1 free1 approve, of w cfg]
    by (simp add: snd_try_catch_ret)
  have st: "stable (\<lambda>rows busy. advanced k rows) (handleImplementation w cfg k)"
  proof (rule stable_handleImplementation)
    fix now rows rows' and busy :: "string set" and p
    assume u: "upsert_rows now k p rows = Inr rows'" and ip: "impl_patch p" and a: "advanced k rows"
    from a obtain x where x: "rows_of k rows = [x]" unfolding advanced_def by blast
    have "rows_of k rows' = [update_row now p x]"
      using rows_of_upsert_same[OF get_row_rows_of[OF x] u] x by simp
    then show "advanced k rows'"
      using ip unfolding advanced_def by (auto simp add: impl_patch_def supplied_def)
  qed simp_all
  have "rows_of k (tasks ?t2) = [update_row (clock ?t1) (approve_patch text) r]"
    using one by (simp add: rows_of_map_same record_call_def)
  then have "advanced k (tasks ?t2)"
    by (simp add: advanced_def approve_patch_def supplied_def)
  then have "advanced k (tasks (snd (handleImplementation w cfg k ?t2)))"
    using st unfolding stable_def by blast
  then show ?thesis using eq by simp
qed

lemma for_each_others:
  assumes "\<forall>x\<in>set xs. issue_key x \<noteq> k"
  shows "rows_of k (tasks (snd (for_each xs (scan_plan_task w cfg) s))) = rows_of k (tasks s)
       \<and> (k \<in> processing (snd (for_each xs (scan_plan_task w cfg) s))) = (k \<in> processing s)"
proof -
  have "stable (\<lambda>rows busy. rows_of k rows = rows_of k (tasks s) \<and> (k \<in> busy) = (k \<in> processing s))
          (for_each xs (scan_plan_task w cfg))"
    by (rule stable_for_each) (use assms in \<open>auto intro: stable_scan_plan_task_other\<close>)
  then show ?thesis unfolding stable_def by blast
qed

lemma snapshot_split:
  assumes "rows_of k rows = [r]" and "phase r = ph"
  shows "\<exists>us vs. rows_by_phase ph rows = us @ r # vs \<and> issue_key r = k
      \<and> (\<forall>u\<in>set us. issue_key u \<noteq> k) \<and> (\<forall>v\<in>set vs. issue_key v \<noteq> k)"
proof -
  have "filter (\<lambda>x. issue_key x = k) (rows_by_phase ph rows) = filter (\<lambda>x. phase x = ph) (rows_of k rows)"
    by (simp add: rows_by_phase_def rows_of_def conj_commute)
  then have "filter (\<lambda>x. issue_key x = k) (rows_by_phase ph rows) = [r]"
    using assms by simp
  then obtain us vs where sp: "rows_by_phase ph rows = us @ r # vs" "\<forall>u\<in>set us. issue_key u \<noteq> k"
      "issue_key r = k" "[] = filter (\<lambda>x. issue_key x = k) vs"
    unfolding filter_eq_Cons_iff by blast
  have "\<forall>v\<in>set vs. issue_key v \<noteq> k"
    using sp(4)[symmetric] by (simp add: filter_empty_conv)
  then show ?thesis using sp by blast
qed

lemma snapshot_without:
  assumes "advanced k rows"
  shows "\<forall>x\<in>set (rows_by_phase PlanPosted rows). issue_key x \<noteq> k"
proof -
  have "filter (\<lambda>x. issue_key x = k) (rows_by_phase PlanPosted rows) =
        filter (\<lambda>x. phase x = PlanPosted) (rows_of k rows)"
    by (simp add: rows_by_phase_def rows_of_def conj_commute)
  then have "filter (\<lambda>x. issue_key x = k) (rows_by_phase PlanPosted rows) = []"
    using assms by (auto simp add: advanced_def)
  then show ?thesis by (simp add: filter_empty_conv)
qed

lemma reconcile_plan_posted_unfold:
  "reconcile_plan_posted w cfg s = for_each (rows_by_phase PlanPosted (tasks s)) (scan_plan_task w cfg) s"
  by (simp add: reconcile_plan_posted_def bind_def getTasksByPhase_def gets_def)

lemma approval_pass:
  assumes one: "rows_of k (tasks s) = [r]" and posted: "phase r = PlanPosted"
    and free: "k \<notin> processing s"
    and issue: "\<forall>n. w_issue w n (GetIssue k) = Inr issue"
    and pick: "picked (plan_watermark r) (rev (comments_of issue)) = Some text"
    and approve: "startsWith (toLowerCase text) ''approve''"
  shows "advanced k (tasks (snd (reconcile_plan_posted w cfg s)))"
proof -
  obtain us vs where sp: "rows_by_phase PlanPosted (tasks s) = us @ r # vs" "issue_key r = k"
      "\<forall>u\<in>set us. issue_key u \<noteq> k" "\<forall>v\<in>set vs. issue_key v \<noteq> k"
    using snapshot_split[OF one posted] by blast
  let ?body = "scan_plan_task w cfg"
  let ?t = "snd (for_each us ?body s)"
  let ?u = "snd (?body r ?t)"
  have run: "reconcile_plan_posted w cfg s = for_each vs ?body ?u"
    using for_each_append_total[of ?body us "r # vs" s] for_each_Cons_total[of ?body r vs ?t]
    by (simp add: reconcile_plan_posted_unfold sp(1) scan_plan_task_returns)
  have t: "rows_of k (tasks ?t) = [r]" "k \<notin> processing ?t"
    using for_each_others[OF sp(3), of w cfg s] one free by simp_all
  have u: "advanced k (tasks ?u)"
    by (rule scan_plan_task_approves[OF t(1) sp(2) t(2) issue pick approve])
  have "rows_of k (tasks (snd (for_each vs ?body ?u))) = rows_of k (tasks ?u)"
    using for_each_others[OF sp(4), of w cfg ?u] by simp
  then show ?thesis using u run by (simp add: advanced_def)
qed

lemma second_pass:
  assumes "advanced k (tasks s)"
  shows "rows_of k (tasks (snd (reconcile_plan_posted w cfg s))) = rows_of k (tasks s)"
  using for_each_others[OF snapshot_without[OF assms], of w cfg s]
  by (simp add: reconcile_plan_posted_unfold)

lemma feedback_success:
  assumes row: "get_row k (tasks s) = Some r" and free: "k \<notin> processing s"
    and other: "\<not> startsWith (toLowerCase text) ''approve''"
    and void_ok: "\<forall>n c. w_void w n c = Inr ()"
    and agent_ok: "\<forall>n c. \<exists>res. w_agent w n c = Inr res \<and> success res"
  shows "\<exists>now. clock s \<le> now \<and>
     map_option plan_posted_at (get_row k (tasks (snd (handlePlanFeedback w cfg k text s)))) = Some (Some now)"
proof -
  obtain res where res: "w_agent w (Suc (length (trace s)))
      (CreatePlan k (summary r) (replan_description r text)) = Inr res" "success res"
    using agent_ok by blast
  show ?thesis
    using void_ok res row
    by (simp add: handlePlanFeedback_feedback[OF row free other] replan_def exec_defs
        upsert_rows_existing get_row_map_same supplied_def no_patch_def)
qed

lemma feedback_failure:
  assumes row: "get_row k (tasks s) = Some r" and free: "k \<notin> processing s"
    and other: "\<not> startsWith (toLowerCase text) ''approve''"
    and agent_fails: "\<forall>n c. \<exists>res. w_agent w n c = Inr res \<and> \<not> success res"
  shows "tasks (snd (handlePlanFeedback w cfg k text s)) = tasks s"
proof -
  obtain res where res: "w_agent w (Suc (length (trace s)))
      (CreatePlan k (summary r) (replan_description r text)) = Inr res" "\<not> success res"
    using agent_fails by blast
  show ?thesis
    using res
    by (simp add: handlePlanFeedback_feedback[OF row free other] replan_def exec_defs
        split: sum.splits)
qed

text \<open>
  The claim C8 as stated fails when the re-planning fails: the handler reports the
  failure on the issue and returns, and the watermark of the task is the one it had.
\<close>

theorem failed_replan_keeps_watermark:
  "fst (handlePlanFeedback world_agent_fails cfg0 ''PROJ-1'' ''please also log errors''
          (engine0 [row0 PlanPosted])) = Inr () \<and>
   map plan_posted_at (tasks (engine0 [row0 PlanPosted])) = [Some 500] \<and>
   map plan_posted_at
     (tasks (snd (handlePlanFeedback world_agent_fails cfg0 ''PROJ-1'' ''please also log errors''
                    (engine0 [row0 PlanPosted])))) = [Some 500]"
  by (simp add: handlePlanFeedback_def replan_def engine_defs example_defs startsWith_def
      toLowerCase_def js_lower_char_def)

text \<open>
  C8, amended.  For a task with one row, in \<open>plan-posted\<close> and not in process.
  Feedback (a comment that is not an approval): when the tracker's calls succeed and
  the agent returns a plan, the handler writes as \<open>plan_posted_at\<close> the time of the
  write, which is not before the time at which the handler started; it is greater than
  the previous watermark when that one is before the start, and no comment created up
  to the start is picked under the new watermark.  When the agent fails, the store is
  left as it was.  Approval: when the scan of the plan-posted tasks picks an approval for
  the task, the task has, after the pass, one row in \<open>approved\<close>, \<open>test\<close> or \<open>failed\<close>,
  and a second pass leaves the rows of the task as they are.
\<close>

theorem watermark_and_approval:
  assumes one: "rows_of k (tasks s) = [r]" and posted: "phase r = PlanPosted"
    and free: "k \<notin> processing s"
  shows
    "(\<not> startsWith (toLowerCase msg) ''approve'' \<and> (\<forall>n c. w_void w n c = Inr ()) \<and>
      (\<forall>n c. \<exists>res. w_agent w n c = Inr res \<and> success res) \<longrightarrow>
        (\<exists>now. map_option plan_posted_at
                  (get_row k (tasks (snd (handlePlanFeedback w cfg k msg s)))) = Some (Some now)
              \<and> clock s \<le> now
              \<and> (plan_watermark r < clock s \<longrightarrow> plan_watermark r < now)
              \<and> (\<forall>cs. (\<forall>c\<in>set cs. c_created c \<le> clock s) \<longrightarrow> picked now cs = None)))
   \<and> (\<not> startsWith (toLowerCase msg) ''approve'' \<and>
      (\<forall>n c. \<exists>res. w_agent w n c = Inr res \<and> \<not> success res) \<longrightarrow>
        tasks (snd (handlePlanFeedback w cfg k msg s)) = tasks s)
   \<and> ((\<forall>n. w_issue w n (GetIssue k) = Inr issue) \<and>
      picked (plan_watermark r) (rev (comments_of issue)) = Some msg \<and>
      startsWith (toLowerCase msg) ''approve'' \<longrightarrow>
        advanced k (tasks (snd (reconcile_plan_posted w cfg s))) \<and>
        rows_of k (tasks (snd (reconcile_plan_posted w cfg (snd (reconcile_plan_posted w cfg s))))) =
          rows_of k (tasks (snd (reconcile_plan_posted w cfg s))))"
proof (intro conjI impI)
  assume a: "\<not> startsWith (toLowerCase msg) ''approve'' \<and> (\<forall>n c. w_void w n c = Inr ()) \<and>
      (\<forall>n c. \<exists>res. w_agent w n c = Inr res \<and> success res)"
  then obtain now where now: "clock s \<le> now"
     "map_option plan_posted_at (get_row k (tasks (snd (handlePlanFeedback w cfg k msg s)))) = Some (Some now)"
    using feedback_success[OF get_row_rows_of[OF one] free, of msg w cfg] by blast
  have "\<forall>cs. (\<forall>c\<in>set cs. c_created c \<le> clock s) \<longrightarrow> picked now cs = None"
    using now(1) by (auto intro!: picked_old)
  then show "\<exists>now. map_option plan_posted_at
                  (get_row k (tasks (snd (handlePlanFeedback w cfg k msg s)))) = Some (Some now)
              \<and> clock s \<le> now
              \<and> (plan_watermark r < clock s \<longrightarrow> plan_watermark r < now)
              \<and> (\<forall>cs. (\<forall>c\<in>set cs. c_created c \<le> clock s) \<longrightarrow> picked now cs = None)"
    using now by (intro exI[of _ now]) auto
next
  assume "\<not> startsWith (toLowerCase msg) ''approve'' \<and>
      (\<forall>n c. \<exists>res. w_agent w n c = Inr res \<and> \<not> success res)"
  then show "tasks (snd (handlePlanFeedback w cfg k msg s)) = tasks s"
    using feedback_failure[OF get_row_rows_of[OF one] free, of msg w cfg] by blast
next
  assume b: "(\<forall>n. w_issue w n (GetIssue k) = Inr issue) \<and>
      picked (plan_watermark r) (rev (comments_of issue)) = Some msg \<and>
      startsWith (toLowerCase msg) ''approve''"
  then show adv: "advanced k (tasks (snd (reconcile_plan_posted w cfg s)))"
    using approval_pass[OF one posted free, of w issue msg cfg] by blast
  show "rows_of k (tasks (snd (reconcile_plan_posted w cfg (snd (reconcile_plan_posted w cfg s))))) =
          rows_of k (tasks (snd (reconcile_plan_posted w cfg s)))"
    by (rule second_pass[OF adv])
qed

definition issue_approved :: jira_issue where
  "issue_approved =
     \<lparr>i_status = Some ''In Progress'', i_assignee = None,
      i_comments = Some [\<lparr>c_text = ''approve'', c_created = 900\<rparr>,
                         \<lparr>c_text = BOT @ '' Working on it'', c_created = 950\<rparr>]\<rparr>"

definition world_approved :: world where
  "world_approved = world_ok\<lparr>w_issue := (\<lambda>n c. Inr issue_approved)\<rparr>"

theorem watermark_and_approval_witness:
  "rows_of ''PROJ-1'' (tasks (engine0 [row0 PlanPosted])) = [row0 PlanPosted] \<and>
   picked (plan_watermark (row0 PlanPosted)) (rev (comments_of issue_approved)) = Some ''approve'' \<and>
   advanced ''PROJ-1'' (tasks (snd (reconcile_plan_posted world_approved cfg0 (engine0 [row0 PlanPosted])))) \<and>
   rows_of ''PROJ-1''
     (tasks (snd (reconcile_plan_posted world_approved cfg0
                    (snd (reconcile_plan_posted world_approved cfg0 (engine0 [row0 PlanPosted])))))) =
   rows_of ''PROJ-1''
     (tasks (snd (reconcile_plan_posted world_approved cfg0 (engine0 [row0 PlanPosted])))) \<and>
   (\<exists>now. map_option plan_posted_at
            (get_row ''PROJ-1''
               (tasks (snd (handlePlanFeedback world_ok cfg0 ''PROJ-1'' ''please also log errors''
                              (engine0 [row0 PlanPosted]))))) = Some (Some now)
        \<and> plan_watermark (row0 PlanPosted) < now)"
proof -
  have a: "rows_of ''PROJ-1'' (tasks (engine0 [row0 PlanPosted])) = [row0 PlanPosted]"
    by (simp add: rows_of_def engine0_def row0_def)
  have b: "phase (row0 PlanPosted) = PlanPosted"
    by (simp add: row0_def)
  have c: "''PROJ-1'' \<notin> processing (engine0 [row0 PlanPosted])"
    by (simp add: engine0_def)
  have d: "\<forall>n. w_issue world_approved n (GetIssue ''PROJ-1'') = Inr issue_approved"
    by (simp add: world_approved_def)
  have e: "picked (plan_watermark (row0 PlanPosted)) (rev (comments_of issue_approved)) = Some ''approve''"
    by (simp add: plan_watermark_def row0_def comments_of_def issue_approved_def startsWith_def
        trim_def is_space_def BOT_def)
  have f: "startsWith (toLowerCase ''approve'') ''approve''"
    by (simp add: startsWith_def toLowerCase_def js_lower_char_def)
  have g: "\<not> startsWith (toLowerCase ''please also log errors'') ''approve''"
    by (simp add: startsWith_def toLowerCase_def js_lower_char_def)
  have h: "(\<forall>n c. w_void world_ok n c = Inr ()) \<and>
           (\<forall>n c. \<exists>res. w_agent world_ok n c = Inr res \<and> success res)"
    by (simp add: world_ok_def agent_result_def)
  have i: "plan_watermark (row0 PlanPosted) < clock (engine0 [row0 PlanPosted])"
    by (simp add: plan_watermark_def row0_def engine0_def)
  show ?thesis
    using watermark_and_approval [OF a b c, where msg = "''approve''" and w = world_approved
          and issue = issue_approved and cfg = cfg0]
      watermark_and_approval [OF a b c, where msg = "''please also log errors''" and w = world_ok
          and issue = issue_approved and cfg = cfg0]
      a d e f g h i
    by blast
qed


subsection \<open>Bounded retry of the staging workflow\<close>


text \<open>
  The calls of an auto-fix cycle: fetching the logs of the failed jobs, the agent's fix,
  the push of the fix and the new merge into staging.  \<open>fix_steps\<close> is the sequence of
  these calls made so far.
\<close>

datatype fix_step = FetchLogs | AgentFix | PushFix | Remerge

definition step_of :: "call \<Rightarrow> fix_step option" where
  "step_of c =
     (case c of
        GetFailedJobLogs runId \<Rightarrow> Some FetchLogs
      | FixBuildFailure key summ bname logs attempt \<Rightarrow> Some AgentFix
      | PushBuildFix key bname attempt \<Rightarrow> Some PushFix
      | MergeIntoStaging bname \<Rightarrow> Some Remerge
      | _ \<Rightarrow> None)"

definition fix_steps :: "engine \<Rightarrow> fix_step list" where
  "fix_steps s = List.map_filter step_of (trace s)"

definition fix_cycle :: "fix_step list" where
  "fix_cycle = [FetchLogs, AgentFix, PushFix, Remerge]"

text \<open>
  A world in which a workflow run always appears and completes with a conclusion other
  than \<open>success\<close>, and every other call succeeds: the agent produces a fix and the push
  has changes.
\<close>

definition always_failing :: "world \<Rightarrow> bool" where
  "always_failing w =
     ((\<forall>n c. \<exists>rid. w_run w n c = Inr (Some rid) \<and> rid \<noteq> 0) \<and>
      (\<forall>n c. \<exists>concl. w_status w n c = Inr (''completed'', concl) \<and> concl \<noteq> Some ''success'') \<and>
      (\<forall>n c. \<exists>logs. w_logs w n c = Inr logs) \<and>
      (\<forall>n c. w_void w n c = Inr ()) \<and>
      (\<forall>n c. \<exists>res. w_agent w n c = Inr res \<and> success res) \<and>
      (\<forall>n c. \<exists>p. w_push w n c = Inr p \<and> pushed p))"

lemma pollWorkflowRun_completed:
  "w_status w (length (trace s)) (GetWorkflowRunStatus rid) = Inr (''completed'', concl) \<Longrightarrow>
   pollWorkflowRun w key rid s =
     (Inr \<lparr>poll_success = (concl = Some ''success''), conclusion = concl\<rparr>,
      record_call w (GetWorkflowRunStatus rid) s)"
  unfolding pollWorkflowRun_def
  by (subst pollLoop.simps) (simp add: maxPollTime_def getWorkflowRunStatus_def ext_def)

lemma find_run_found:
  "w_run w (Suc (length (trace s))) (FindWorkflowRun wfile ''staging'' pt) = Inr (Some rid) \<Longrightarrow>
   find_run w wfile pt (Suc n) s =
     (Inr (Some rid), record_call w (FindWorkflowRun wfile ''staging'' pt) (snd (sleep 10000 s)))"
  by (simp add: bind_def sleep_def findWorkflowRun_def ext_def ret_def)

lemma fix_steps_simps [simp]:
  "fix_steps (record_call w c s) = fix_steps s @ (case step_of c of None \<Rightarrow> [] | Some k \<Rightarrow> [k])"
  "fix_steps (snd (sleep ms s)) = fix_steps s"
  by (simp_all add: fix_steps_def record_call_def sleep_def map_filter_def step_of_def
      split: option.splits)

lemma length_trace_simps [simp]:
  "length (trace (record_call w c s)) = Suc (length (trace s))"
  "length (trace (snd (sleep ms s))) = Suc (length (trace s))"
  by (simp_all add: record_call_def sleep_def)

lemma step_of_simps [simp]:
  "step_of (GetFailedJobLogs rid) = Some FetchLogs"
  "step_of (FixBuildFailure key summ bname logs attempt) = Some AgentFix"
  "step_of (PushBuildFix key bname attempt) = Some PushFix"
  "step_of (MergeIntoStaging bname) = Some Remerge"
  "step_of (FindWorkflowRun wfile b pt) = None"
  "step_of (GetWorkflowRunStatus rid) = None"
  "step_of (AddComment key t) = None"
  by (simp_all add: step_of_def)

lemma attempt_body_failing:
  assumes H: "always_failing w"
  shows "\<exists>concl. concl \<noteq> Some ''success'' \<and>
     (if attempt \<ge> maxRetries + 1
      then fst (attempt_body w key bname summ wfile maxRetries attempt s) =
             Inl (Error (workflow_failed_message (maxRetries + 1) concl)) \<and>
           fix_steps (snd (attempt_body w key bname summ wfile maxRetries attempt s)) = fix_steps s
      else fst (attempt_body w key bname summ wfile maxRetries attempt s) = Inr Continue \<and>
           fix_steps (snd (attempt_body w key bname summ wfile maxRetries attempt s)) =
             fix_steps s @ fix_cycle)"
proof -
  let ?n = "length (trace s)"
  obtain rid where rid: "w_run w (Suc ?n) (FindWorkflowRun wfile ''staging'' (clock s)) = Inr (Some rid)"
      "rid \<noteq> 0"
    using H unfolding always_failing_def by blast
  obtain concl where concl:
      "w_status w (Suc (Suc ?n)) (GetWorkflowRunStatus rid) = Inr (''completed'', concl)"
      "concl \<noteq> Some ''success''"
    using H unfolding always_failing_def by blast
  obtain logs where logs: "w_logs w (Suc (Suc (Suc ?n))) (GetFailedJobLogs rid) = Inr logs"
    using H unfolding always_failing_def by blast
  have void: "\<And>n c. w_void w n c = Inr ()"
    using H unfolding always_failing_def by blast
  obtain res where res: "w_agent w (Suc (Suc (Suc (Suc (Suc ?n)))))
        (FixBuildFailure key summ bname logs attempt) = Inr res" "success res"
    using H unfolding always_failing_def by blast
  obtain p where p: "w_push w (Suc (Suc (Suc (Suc (Suc (Suc ?n))))))
        (PushBuildFix key bname attempt) = Inr p" "pushed p"
    using H unfolding always_failing_def by blast
  let ?s1 = "record_call w (FindWorkflowRun wfile ''staging'' (clock s)) (snd (sleep 10000 s))"
  have f: "find_run w wfile (clock s) 10 s = (Inr (Some rid), ?s1)"
    using find_run_found[OF rid(1), of 9] by (simp add: eval_nat_numeral)
  have len1: "length (trace ?s1) = Suc (Suc ?n)"
    by simp
  have pl: "pollWorkflowRun w key rid ?s1 =
     (Inr \<lparr>poll_success = False, conclusion = concl\<rparr>, record_call w (GetWorkflowRunStatus rid) ?s1)"
    using pollWorkflowRun_completed[of w ?s1 rid concl key] concl len1 by simp
  show ?thesis
  proof (intro exI[of _ concl] conjI concl(2))
    show "if attempt \<ge> maxRetries + 1
      then fst (attempt_body w key bname summ wfile maxRetries attempt s) =
             Inl (Error (workflow_failed_message (maxRetries + 1) concl)) \<and>
           fix_steps (snd (attempt_body w key bname summ wfile maxRetries attempt s)) = fix_steps s
      else fst (attempt_body w key bname summ wfile maxRetries attempt s) = Inr Continue \<and>
           fix_steps (snd (attempt_body w key bname summ wfile maxRetries attempt s)) =
             fix_steps s @ fix_cycle"
      using rid(2) logs void res p
      by (simp add: attempt_body_def bind_def gets_def f pl throw_def ret_def getFailedJobLogs_def
          addComment_def fixBuildFailure_def pushBuildFix_def engine_mergeIntoStaging_def ext_def
          fix_cycle_def)
  qed
qed

lemma attemptLoop_failing:
  "always_failing w \<Longrightarrow> attempt \<le> maxRetries + 1 \<Longrightarrow>
     \<exists>concl. concl \<noteq> Some ''success'' \<and>
       fst (attemptLoop w key bname summ wfile maxRetries attempt s) =
         Inl (Error (workflow_failed_message (maxRetries + 1) concl)) \<and>
       fix_steps (snd (attemptLoop w key bname summ wfile maxRetries attempt s)) =
         fix_steps s @ concat (replicate (nat (maxRetries + 1 - attempt)) fix_cycle)"
proof (induction w key bname summ wfile maxRetries attempt s rule: attemptLoop.induct)
  case (1 w key bname summ wfile maxRetries attempt s)
  note H = 1(2) and le = 1(3)
  obtain r s1 where b: "attempt_body w key bname summ wfile maxRetries attempt s = (r, s1)"
    by fastforce
  obtain concl where c: "concl \<noteq> Some ''success''"
     "if attempt \<ge> maxRetries + 1
      then r = Inl (Error (workflow_failed_message (maxRetries + 1) concl)) \<and> fix_steps s1 = fix_steps s
      else r = Inr Continue \<and> fix_steps s1 = fix_steps s @ fix_cycle"
    using attempt_body_failing[OF H, of maxRetries attempt key bname summ wfile s]
    unfolding b fst_conv snd_conv by blast
  show ?case
  proof (cases "attempt = maxRetries + 1")
    case True
    then show ?thesis
      using c b by (subst (1 2) attemptLoop.simps) (auto intro!: exI[of _ concl])
  next
    case False
    then have lt: "attempt < maxRetries + 1" using le by simp
    then have r: "r = Inr Continue" "fix_steps s1 = fix_steps s @ fix_cycle"
      using c(2) by simp_all
    obtain concl' where ih: "concl' \<noteq> Some ''success''"
       "fst (attemptLoop w key bname summ wfile maxRetries (attempt + 1) s1) =
         Inl (Error (workflow_failed_message (maxRetries + 1) concl'))"
       "fix_steps (snd (attemptLoop w key bname summ wfile maxRetries (attempt + 1) s1)) =
         fix_steps s1 @ concat (replicate (nat (maxRetries + 1 - (attempt + 1))) fix_cycle)"
      using 1(1)[OF le b[symmetric] r(1) refl H] lt by auto
    have n: "nat (maxRetries + 1 - attempt) = Suc (nat (maxRetries + 1 - (attempt + 1)))"
      using lt by simp
    have eq: "attemptLoop w key bname summ wfile maxRetries attempt s =
              attemptLoop w key bname summ wfile maxRetries (attempt + 1) s1"
      using le b r(1) by (subst attemptLoop.simps) simp
    show ?thesis
      using ih r(2) by (auto simp add: eq n intro!: exI[of _ concl'])
  qed
qed


lemma fix_steps_ext [simp]:
  "fix_steps (snd (ext w outcome c s)) = fix_steps s @ (case step_of c of None \<Rightarrow> [] | Some k \<Rightarrow> [k])"
  by (simp add: ext_def)

lemma keeps_find_run: "fix_steps (snd (find_run w wfile pt n s)) = fix_steps s"
proof (induction n arbitrary: s)
  case 0
  show ?case by (simp add: ret_def)
next
  case (Suc n)
  obtain r s1 where f: "findWorkflowRun w wfile ''staging'' pt (snd (sleep 10000 s)) = (r, s1)"
    by fastforce
  have "s1 = snd (findWorkflowRun w wfile ''staging'' pt (snd (sleep 10000 s)))"
    using f by simp
  then have s1: "fix_steps s1 = fix_steps s"
    by (simp add: findWorkflowRun_def)
  show ?case
    using f s1 Suc.IH[of s1]
    by (auto simp add: bind_def sleep_def ret_def split: sum.splits option.splits)
qed

lemma keeps_pollLoop: "fix_steps (snd (pollLoop w runId start idx s)) = fix_steps s"
proof (induction w runId start idx s rule: pollLoop.induct)
  case (1 w runId start idx s)
  show ?case
  proof (cases "clock s - start < maxPollTime")
    case False
    then show ?thesis by (simp add: pollLoop.simps)
  next
    case True
    obtain r s1 where g: "getWorkflowRunStatus w runId s = (r, s1)" by fastforce
    have "s1 = snd (getWorkflowRunStatus w runId s)"
      using g by simp
    then have s1: "fix_steps s1 = fix_steps s"
      by (simp add: getWorkflowRunStatus_def)
    show ?thesis
    proof (cases r)
      case (Inl e)
      then show ?thesis using True g s1 by (simp add: pollLoop.simps)
    next
      case (Inr st)
      show ?thesis
      proof (cases "fst st = ''completed''")
        case True
        with \<open>clock s - start < maxPollTime\<close> g Inr s1 show ?thesis by (simp add: pollLoop.simps)
      next
        case False
        from 1[OF True g[symmetric] Inr False] True g Inr False s1
        show ?thesis by (simp add: pollLoop.simps)
      qed
    qed
  qed
qed

lemma keeps_pollWorkflowRun: "fix_steps (snd (pollWorkflowRun w key runId s)) = fix_steps s"
  by (simp add: pollWorkflowRun_def keeps_pollLoop)

lemma attempt_body_steps:
  "\<exists>xs. fix_steps (snd (attempt_body w key bname summ wfile maxRetries attempt s)) = fix_steps s @ xs \<and>
     (if fst (attempt_body w key bname summ wfile maxRetries attempt s) = Inr Continue
      then xs = fix_cycle \<and> attempt < maxRetries + 1
      else prefix xs fix_cycle \<and> (attempt \<ge> maxRetries + 1 \<longrightarrow> xs = []))"
proof -
  obtain r1 s1 where f: "find_run w wfile (clock s) 10 s = (r1, s1)" by fastforce
  have s1: "fix_steps s1 = fix_steps s" using keeps_find_run[of w wfile "clock s" 10 s] f by simp
  show ?thesis
  proof (cases r1)
    case (Inl e)
    then show ?thesis using f s1 by (simp add: attempt_body_def bind_def gets_def)
  next
    case (Inr found)
    show ?thesis
    proof (cases found)
      case None
      then show ?thesis using f s1 Inr by (simp add: attempt_body_def bind_def gets_def ret_def)
    next
      case (Some runId)
      show ?thesis
      proof (cases "runId = 0")
        case True
        then show ?thesis using f s1 Inr Some by (simp add: attempt_body_def bind_def gets_def ret_def)
      next
        case False
        obtain r2 s2 where p: "pollWorkflowRun w key runId s1 = (r2, s2)" by fastforce
        have s2: "fix_steps s2 = fix_steps s"
          using keeps_pollWorkflowRun[of w key runId s1] p s1 by simp
        have body: "attempt_body w key bname summ wfile maxRetries attempt s =
           (case r2 of Inl e \<Rightarrow> (Inl e, s2)
            | Inr result \<Rightarrow>
               (if poll_success result then ret Return
                else if attempt \<ge> maxRetries + 1
                then throw (Error (workflow_failed_message (maxRetries + 1) (conclusion result)))
                else
                  bind (getFailedJobLogs w runId) (\<lambda>logs.
                  bind (addComment w key (autofix_comment attempt maxRetries)) (\<lambda>_.
                  bind (fixBuildFailure w key summ bname logs attempt) (\<lambda>fixResult.
                  if \<not> success fixResult
                  then throw (Error (''Build fix failed: '' @ show_undefined (r_error fixResult)))
                  else
                    bind (pushBuildFix w key bname attempt) (\<lambda>pushResult.
                    if \<not> pushed pushResult
                    then throw (Error (''Build fix produced no changes: '' @ show_undefined (reason pushResult)))
                    else
                      bind (engine_mergeIntoStaging w bname) (\<lambda>_.
                      ret Continue)))))) s2)"
          using f Inr Some False p
          by (simp add: attempt_body_def bind_def gets_def split: sum.splits)
        show ?thesis
          unfolding body using s2
          by (auto simp add: bind_def ret_def throw_def getFailedJobLogs_def addComment_def
              fixBuildFailure_def pushBuildFix_def engine_mergeIntoStaging_def ext_def fix_cycle_def
              split: sum.splits)
      qed
    qed
  qed
qed

lemma attemptLoop_steps:
  "\<exists>ys. fix_steps (snd (attemptLoop w key bname summ wfile maxRetries attempt s)) = fix_steps s @ ys \<and>
     prefix ys (concat (replicate (nat (maxRetries + 1 - attempt)) fix_cycle))"
proof (induction w key bname summ wfile maxRetries attempt s rule: attemptLoop.induct)
  case (1 w key bname summ wfile maxRetries attempt s)
  show ?case
  proof (cases "attempt \<le> maxRetries + 1")
    case False
    then show ?thesis by (subst attemptLoop.simps) simp
  next
    case True
    obtain r s1 where b: "attempt_body w key bname summ wfile maxRetries attempt s = (r, s1)"
      by fastforce
    obtain xs where xs: "fix_steps s1 = fix_steps s @ xs"
       "if r = Inr Continue then xs = fix_cycle \<and> attempt < maxRetries + 1
        else prefix xs fix_cycle \<and> (attempt \<ge> maxRetries + 1 \<longrightarrow> xs = [])"
      using attempt_body_steps[of w key bname summ wfile maxRetries attempt s]
      unfolding b fst_conv snd_conv by blast
    show ?thesis
    proof (cases "r = Inr Continue")
      case True
      then have full: "xs = fix_cycle" and lt: "attempt < maxRetries + 1" using xs(2) by simp_all
      obtain ys where ys: "fix_steps (snd (attemptLoop w key bname summ wfile maxRetries (attempt + 1) s1)) =
            fix_steps s1 @ ys"
         "prefix ys (concat (replicate (nat (maxRetries + 1 - (attempt + 1))) fix_cycle))"
        using 1[OF \<open>attempt \<le> maxRetries + 1\<close> b[symmetric] True refl] by blast
      have n: "nat (maxRetries + 1 - attempt) = Suc (nat (maxRetries + 1 - (attempt + 1)))"
        using lt by simp
      have eq: "attemptLoop w key bname summ wfile maxRetries attempt s =
                attemptLoop w key bname summ wfile maxRetries (attempt + 1) s1"
        using \<open>attempt \<le> maxRetries + 1\<close> b True by (subst attemptLoop.simps) simp
      show ?thesis
        using ys xs(1) full by (auto simp add: eq n intro!: exI[of _ "fix_cycle @ ys"])
    next
      case False
      then have pre: "prefix xs fix_cycle" and last: "attempt \<ge> maxRetries + 1 \<longrightarrow> xs = []"
        using xs(2) by simp_all
      have eq: "snd (attemptLoop w key bname summ wfile maxRetries attempt s) = s1"
        using \<open>attempt \<le> maxRetries + 1\<close> b False
        by (subst attemptLoop.simps) (auto split: sum.splits loop_step.splits)
      show ?thesis
      proof (cases "attempt = maxRetries + 1")
        case True
        then show ?thesis using last xs(1) eq by simp
      next
        case False
        then have n: "nat (maxRetries + 1 - attempt) = Suc (nat (maxRetries + 1 - (attempt + 1)))"
          using \<open>attempt \<le> maxRetries + 1\<close> by simp
        show ?thesis
          using pre xs(1) by (auto simp add: eq n intro!: exI[of _ xs] prefix_prefix)
      qed
    qed
  qed
qed

text \<open>
  C3.  Whatever the collaborators answer, the fix steps that \<open>waitForStagingWorkflow\<close>
  adds are a prefix of \<open>maxRetries\<close> auto-fix cycles (logs, fix, push, new merge): never
  more cycles than \<open>maxRetries\<close>.  When a workflow file is configured, \<open>maxRetries\<close> is not
  negative, every run completes with a conclusion other than \<open>success\<close> and the other
  calls succeed, the method makes exactly \<open>maxRetries\<close> cycles and then throws the
  error that reports the failure after \<open>maxRetries + 1\<close> attempts.
\<close>

theorem bounded_retry:
  "(\<exists>ys. fix_steps (snd (waitForStagingWorkflow w cfg key bname summ s)) = fix_steps s @ ys \<and>
         prefix ys (concat (replicate (nat (actionsMaxRetries cfg)) fix_cycle)))
   \<and> (always_failing w \<and> actionsWorkflowFile cfg = Some wfile \<and> wfile \<noteq> [] \<and>
      0 \<le> actionsMaxRetries cfg \<longrightarrow>
        (\<exists>concl. concl \<noteq> Some ''success'' \<and>
           fst (waitForStagingWorkflow w cfg key bname summ s) =
             Inl (Error (workflow_failed_message (actionsMaxRetries cfg + 1) concl)) \<and>
           fix_steps (snd (waitForStagingWorkflow w cfg key bname summ s)) =
             fix_steps s @ concat (replicate (nat (actionsMaxRetries cfg)) fix_cycle)))"
proof (intro conjI impI)
  show "\<exists>ys. fix_steps (snd (waitForStagingWorkflow w cfg key bname summ s)) = fix_steps s @ ys \<and>
         prefix ys (concat (replicate (nat (actionsMaxRetries cfg)) fix_cycle))"
  proof (cases "actionsWorkflowFile cfg")
    case None
    then show ?thesis by (simp add: waitForStagingWorkflow_def ret_def)
  next
    case (Some f)
    show ?thesis
    proof (cases "f = []")
      case True
      then show ?thesis using Some by (simp add: waitForStagingWorkflow_def ret_def)
    next
      case False
      then show ?thesis
        using Some attemptLoop_steps[of w key bname summ f "actionsMaxRetries cfg" 1 s]
        by (simp add: waitForStagingWorkflow_def)
    qed
  qed
next
  assume a: "always_failing w \<and> actionsWorkflowFile cfg = Some wfile \<and> wfile \<noteq> [] \<and>
      0 \<le> actionsMaxRetries cfg"
  then show "\<exists>concl. concl \<noteq> Some ''success'' \<and>
           fst (waitForStagingWorkflow w cfg key bname summ s) =
             Inl (Error (workflow_failed_message (actionsMaxRetries cfg + 1) concl)) \<and>
           fix_steps (snd (waitForStagingWorkflow w cfg key bname summ s)) =
             fix_steps s @ concat (replicate (nat (actionsMaxRetries cfg)) fix_cycle)"
    using attemptLoop_failing[of w 1 "actionsMaxRetries cfg" key bname summ wfile s]
    by (simp add: waitForStagingWorkflow_def)
qed

definition cfg_ci :: Config where
  "cfg_ci = cfg0\<lparr>actionsWorkflowFile := Some ''ci.yml''\<rparr>"

theorem bounded_retry_witness:
  "always_failing world_ok \<and> actionsWorkflowFile cfg_ci = Some ''ci.yml'' \<and>
   actionsMaxRetries cfg_ci = 2 \<and>
   (\<exists>concl. fst (waitForStagingWorkflow world_ok cfg_ci ''PROJ-1'' ''claude/PROJ-1'' ''Add health check''
                    (engine0 [])) = Inl (Error (workflow_failed_message 3 concl))) \<and>
   fix_steps (snd (waitForStagingWorkflow world_ok cfg_ci ''PROJ-1'' ''claude/PROJ-1'' ''Add health check''
                     (engine0 []))) = fix_cycle @ fix_cycle"
proof -
  have a: "always_failing world_ok"
    by (simp add: always_failing_def world_ok_def agent_result_def)
  have b: "actionsWorkflowFile cfg_ci = Some ''ci.yml''" "actionsMaxRetries cfg_ci = 2"
    by (simp_all add: cfg_ci_def cfg0_def)
  have c: "fix_steps (engine0 []) = []"
    by (simp add: fix_steps_def engine0_def map_filter_def)
  have d: "concat (replicate (nat 2) fix_cycle) = fix_cycle @ fix_cycle"
    by (simp add: eval_nat_numeral)
  show ?thesis
    using bounded_retry [of world_ok cfg_ci "''PROJ-1''" "''claude/PROJ-1''" "''Add health check''"
        "engine0 []" "''ci.yml''"] a b c d
    by auto
qed

end
